theory Spec2Isabelle
  imports Main
begin

section \<open>Mini SQL engine: the parser and the executor\<close>

text \<open>
  A shallow embedding of \<^verbatim>\<open>parser.py\<close> and \<^verbatim>\<open>engine.py\<close>.

  Text is modelled as \<^typ>\<open>string\<close>, read as ASCII: \<open>upper\<close>, \<open>lower\<close> and the
  whitespace test act on the ASCII letters and the ASCII whitespace characters, and leave every
  other character alone.

  Python floats are not given a concrete representation. The few float operations the
  program uses (\<^verbatim>\<open>float(str)\<close>, \<^verbatim>\<open>float(int)\<close>, \<^verbatim>\<open>str(float)\<close> and the comparisons)
  are the fields of a record \<open>float_ops\<close> that every function working with numbers takes as
  its first argument, so that each theorem holds for any implementation of them.
\<close>

subsection \<open>Python string operations\<close>

definition is_space :: "char \<Rightarrow> bool" where
  \<comment> \<open>\<^verbatim>\<open>str.isspace\<close> and the regular expression class \<^verbatim>\<open>\s\<close>, on ASCII: tab, line feed,
      vertical tab, form feed, carriage return, the four separators 28 to 31, space\<close>
  "is_space c = (c \<in> set [CHR 0x09, CHR 0x0A, CHR 0x0B, CHR 0x0C, CHR 0x0D,
                           CHR 0x1C, CHR 0x1D, CHR 0x1E, CHR 0x1F, CHR 0x20])"

definition lower_letters :: string where
  "lower_letters = ''abcdefghijklmnopqrstuvwxyz''"

definition upper_letters :: string where
  "upper_letters = ''ABCDEFGHIJKLMNOPQRSTUVWXYZ''"

definition digits :: string where
  "digits = ''0123456789''"

definition is_upper_letter :: "char \<Rightarrow> bool" where
  "is_upper_letter c = (c \<in> set upper_letters)"

definition is_lower_letter :: "char \<Rightarrow> bool" where
  "is_lower_letter c = (c \<in> set lower_letters)"

definition is_digit :: "char \<Rightarrow> bool" where
  "is_digit c = (c \<in> set digits)"

definition upper_char :: "char \<Rightarrow> char" where
  "upper_char c = (case map_of (zip lower_letters upper_letters) c of Some u \<Rightarrow> u | None \<Rightarrow> c)"

definition lower_char :: "char \<Rightarrow> char" where
  "lower_char c = (case map_of (zip upper_letters lower_letters) c of Some l \<Rightarrow> l | None \<Rightarrow> c)"

definition upper :: "string \<Rightarrow> string" where
  "upper s = map upper_char s"

definition lower :: "string \<Rightarrow> string" where
  "lower s = map lower_char s"

definition lstrip :: "string \<Rightarrow> string" where
  "lstrip s = dropWhile is_space s"

definition rstrip :: "string \<Rightarrow> string" where
  "rstrip s = rev (dropWhile is_space (rev s))"

definition strip :: "string \<Rightarrow> string" where
  "strip s = rstrip (lstrip s)"

definition rstrip_char :: "char \<Rightarrow> string \<Rightarrow> string" where
  \<comment> \<open>\<^verbatim>\<open>s.rstrip(c)\<close> for a single character: every trailing copy goes\<close>
  "rstrip_char c s = rev (dropWhile (\<lambda>x. x = c) (rev s))"

fun startswith :: "string \<Rightarrow> string \<Rightarrow> bool" where
  "startswith s [] = True"
| "startswith [] (p # ps) = False"
| "startswith (c # cs) (p # ps) = (c = p \<and> startswith cs ps)"

definition endswith :: "string \<Rightarrow> string \<Rightarrow> bool" where
  "endswith s p = startswith (rev s) (rev p)"

fun contains :: "string \<Rightarrow> string \<Rightarrow> bool" where
  \<comment> \<open>\<^verbatim>\<open>sub in s\<close>\<close>
  "contains [] sub = (sub = [])"
| "contains (c # cs) sub = (startswith (c # cs) sub \<or> contains cs sub)"

fun split_once :: "string \<Rightarrow> string \<Rightarrow> (string \<times> string) option" where
  \<comment> \<open>\<^verbatim>\<open>s.split(sep, 1)\<close> for a non-empty separator: \<open>Some (before, after)\<close> at the first
      occurrence, \<open>None\<close> when Python returns the one-element list \<^verbatim>\<open>[s]\<close>\<close>
  "split_once [] sep = None"
| "split_once (c # cs) sep =
     (if startswith (c # cs) sep then Some ([], drop (length sep) (c # cs))
      else (case split_once cs sep of
              None \<Rightarrow> None
            | Some (l, r) \<Rightarrow> Some (c # l, r)))"

fun split_char :: "char \<Rightarrow> string \<Rightarrow> string list" where
  \<comment> \<open>\<^verbatim>\<open>s.split(c)\<close> for a single character: always at least one piece\<close>
  "split_char d [] = [[]]"
| "split_char d (c # cs) =
     (if c = d then [] # split_char d cs
      else (case split_char d cs of
              [] \<Rightarrow> [[c]]
            | p # ps \<Rightarrow> (c # p) # ps))"

function collapse_spaces :: "string \<Rightarrow> string" where
  \<comment> \<open>\<^verbatim>\<open>re.sub(r'\s+', ' ', s)\<close>: each maximal run of whitespace becomes one space\<close>
  "collapse_spaces [] = []"
| "collapse_spaces (c # cs) =
     (if is_space c then CHR '' '' # collapse_spaces (dropWhile is_space cs)
      else c # collapse_spaces cs)"
  by pat_completeness auto
termination
  by (relation "measure length") (auto simp: less_Suc_eq_le length_dropWhile_le)

definition normalize_whitespace :: "string \<Rightarrow> string" where
  "normalize_whitespace s = strip (collapse_spaces s)"

subsection \<open>The patterns of the parser\<close>

definition is_ident_start :: "char \<Rightarrow> bool" where
  "is_ident_start c = (is_upper_letter c \<or> is_lower_letter c \<or> c = CHR ''_'')"

definition is_ident_char :: "char \<Rightarrow> bool" where
  "is_ident_char c = (is_ident_start c \<or> is_digit c)"

definition ident_core :: "string \<Rightarrow> bool" where
  "ident_core s = (case s of [] \<Rightarrow> False | c # cs \<Rightarrow> is_ident_start c \<and> list_all is_ident_char cs)"

definition dollar_end :: "(string \<Rightarrow> bool) \<Rightarrow> string \<Rightarrow> bool" where
  \<comment> \<open>a pattern closed by \<^verbatim>\<open>$\<close>, which matches at the end of the text and also just
      before one final newline\<close>
  "dollar_end p s = (p s \<or> (s \<noteq> [] \<and> last s = CHR 0x0A \<and> p (butlast s)))"

definition is_identifier :: "string \<Rightarrow> bool" where
  \<comment> \<open>\<^verbatim>\<open>re.match(r"^[A-Za-z_][A-Za-z0-9_]*$", s)\<close>\<close>
  "is_identifier s = dollar_end ident_core s"

definition is_bare_word :: "string \<Rightarrow> bool" where
  \<comment> \<open>\<^verbatim>\<open>re.match(r"^[A-Za-z0-9_]+$", s)\<close>\<close>
  "is_bare_word s = dollar_end (\<lambda>t. t \<noteq> [] \<and> list_all is_ident_char t) s"

definition count_match :: "string \<Rightarrow> string option" where
  \<comment> \<open>\<^verbatim>\<open>re.match(r"COUNT\(\s*(\*|[A-Za-z_][A-Za-z0-9_]*)\s*\)$", s, re.IGNORECASE)\<close>:
      group 1 of the match, \<open>None\<close> when there is none\<close>
  "count_match s =
     (if \<not> startswith (upper s) ''COUNT('' then None
      else let r = dropWhile is_space (drop 6 s) in
        if startswith r ''*''
        then (if dollar_end (\<lambda>t. t = '')'') (dropWhile is_space (drop 1 r)) then Some ''*'' else None)
        else let g = takeWhile is_ident_char r in
          if ident_core g \<and> dollar_end (\<lambda>t. t = '')'') (dropWhile is_space (dropWhile is_ident_char r))
          then Some g else None)"

definition where_at :: "string \<Rightarrow> bool" where
  \<comment> \<open>the pattern \<^verbatim>\<open>\sWHERE\s\<close> with \<^verbatim>\<open>re.IGNORECASE\<close> matches at the head of the text\<close>
  "where_at s =
     (7 \<le> length s \<and> is_space (s ! 0) \<and> upper (take 5 (drop 1 s)) = ''WHERE'' \<and> is_space (s ! 6))"

fun re_split_where :: "string \<Rightarrow> string list" where
  \<comment> \<open>\<^verbatim>\<open>re.split(r"\sWHERE\s", s, flags=re.IGNORECASE)\<close>: no \<^verbatim>\<open>maxsplit\<close>, so the text is
      cut at every match, scanning from the left, matches not overlapping\<close>
  "re_split_where [] = [[]]"
| "re_split_where (c # cs) =
     (if where_at (c # cs) then [] # re_split_where (drop 6 cs)
      else (case re_split_where cs of
              [] \<Rightarrow> [[c]]
            | p # ps \<Rightarrow> (c # p) # ps))"

subsection \<open>Numbers\<close>

fun index_of :: "'a list \<Rightarrow> 'a \<Rightarrow> nat option" where
  \<comment> \<open>\<^verbatim>\<open>xs.index(x)\<close>: the first position of \<open>x\<close>; \<open>None\<close> where Python raises\<close>
  "index_of [] x = None"
| "index_of (y # ys) x = (if y = x then Some 0 else map_option Suc (index_of ys x))"

definition digit_val :: "char \<Rightarrow> nat" where
  "digit_val c = (case index_of digits c of Some n \<Rightarrow> n | None \<Rightarrow> 0)"

fun digit_groups :: "nat \<Rightarrow> string \<Rightarrow> nat option" where
  \<comment> \<open>what may follow the first digit of a decimal literal: digits, each with at most one
      underscore before it\<close>
  "digit_groups acc [] = Some acc"
| "digit_groups acc [c] = (if is_digit c then Some (10 * acc + digit_val c) else None)"
| "digit_groups acc (c # d # cs) =
     (if is_digit c then digit_groups (10 * acc + digit_val c) (d # cs)
      else if c = CHR ''_'' \<and> is_digit d then digit_groups (10 * acc + digit_val d) cs
      else None)"

definition nat_literal :: "string \<Rightarrow> nat option" where
  "nat_literal s = (case s of [] \<Rightarrow> None
                    | c # cs \<Rightarrow> if is_digit c then digit_groups (digit_val c) cs else None)"

definition py_int :: "string \<Rightarrow> int option" where
  \<comment> \<open>\<^verbatim>\<open>int(s)\<close> on text, base 10: surrounding whitespace, one optional sign, decimal digits;
      \<open>None\<close> is \<^verbatim>\<open>ValueError\<close>. (No bound on the number of digits is modelled.)\<close>
  "py_int s =
     (case strip s of
        [] \<Rightarrow> None
      | c # cs \<Rightarrow>
          if c = CHR ''-'' then map_option (\<lambda>n. - int n) (nat_literal cs)
          else if c = CHR ''+'' then map_option int (nat_literal cs)
          else map_option int (nat_literal (c # cs)))"

definition isdigit :: "string \<Rightarrow> bool" where
  \<comment> \<open>\<^verbatim>\<open>s.isdigit()\<close>\<close>
  "isdigit s = (s \<noteq> [] \<and> list_all is_digit s)"

function str_of_nat :: "nat \<Rightarrow> string" where
  "str_of_nat n =
     (if n < 10 then [digits ! n] else str_of_nat (n div 10) @ [digits ! (n mod 10)])"
  by pat_completeness auto
termination
  by (relation "measure id") auto

definition str_of_int :: "int \<Rightarrow> string" where
  \<comment> \<open>\<^verbatim>\<open>str(i)\<close> of an integer\<close>
  "str_of_int i = (if i < 0 then CHR ''-'' # str_of_nat (nat (- i)) else str_of_nat (nat i))"

datatype cmp_result = LT | EQ | GT | UN

record 'f float_ops =
  float_of_str :: "string \<Rightarrow> 'f option"  \<comment> \<open>\<^verbatim>\<open>float(s)\<close>; \<open>None\<close> is \<^verbatim>\<open>ValueError\<close>\<close>
  float_of_int :: "int \<Rightarrow> 'f option"  \<comment> \<open>\<^verbatim>\<open>float(i)\<close>; \<open>None\<close> is \<^verbatim>\<open>OverflowError\<close>\<close>
  str_of_float :: "'f \<Rightarrow> string"  \<comment> \<open>\<^verbatim>\<open>str(x)\<close>\<close>
  cmp_float :: "'f \<Rightarrow> 'f \<Rightarrow> cmp_result"  \<comment> \<open>how two floats compare; \<open>UN\<close> when one is a NaN\<close>
  cmp_int_float :: "int \<Rightarrow> 'f \<Rightarrow> cmp_result"  \<comment> \<open>how an integer compares with a float\<close>

datatype 'f number = NInt int | NFloat 'f

subsection \<open>Queries and errors\<close>

datatype parse_error =
    EmptyInput  \<comment> \<open>\<^verbatim>\<open>"Empty SQL"\<close>\<close>
  | MissingSelect  \<comment> \<open>\<^verbatim>\<open>"Query must start with SELECT"\<close>\<close>
  | MissingFrom  \<comment> \<open>\<^verbatim>\<open>"Missing FROM clause"\<close>\<close>
  | InvalidCount  \<comment> \<open>\<^verbatim>\<open>"Invalid COUNT() syntax"\<close>\<close>
  | EmptySelection  \<comment> \<open>\<^verbatim>\<open>"No columns specified in SELECT"\<close>\<close>
  | InvalidColumn string  \<comment> \<open>\<^verbatim>\<open>"Invalid column name: {c}"\<close>\<close>
  | MissingOperator  \<comment> \<open>\<^verbatim>\<open>"WHERE must contain a comparison operator"\<close>\<close>
  | InvalidWhereColumn string  \<comment> \<open>\<^verbatim>\<open>"Invalid column in WHERE: {col}"\<close>\<close>
  | InvalidWhereValue  \<comment> \<open>\<^verbatim>\<open>"WHERE value must be number or string"\<close>\<close>

datatype error =
    SQLParseError parse_error
  | TableNotFoundError string
  | ColumnError string
  | ValueError  \<comment> \<open>raised by Python itself: unpacking a list that is too short\<close>
  | IndexError  \<comment> \<open>raised by Python itself: an index out of range\<close>
  | KeyError  \<comment> \<open>raised by Python itself: a missing dictionary key\<close>
  | OverflowError  \<comment> \<open>raised by Python itself: \<^verbatim>\<open>float(i)\<close> of too large an integer\<close>

datatype selection =
    SelCount string  \<comment> \<open>\<^verbatim>\<open>{"type": "count", "count_col": c}\<close>\<close>
  | SelCols "string list"  \<comment> \<open>\<^verbatim>\<open>{"type": "cols", "cols": cs}\<close>\<close>

datatype 'f literal =
    LNum "'f number"  \<comment> \<open>\<^verbatim>\<open>val_type == "num"\<close>\<close>
  | LStr string  \<comment> \<open>\<^verbatim>\<open>val_type == "str"\<close>\<close>

record 'f where_clause =
  w_col :: string
  w_op :: string
  w_val :: "'f literal"

record 'f query =
  q_select :: selection
  q_from :: string
  q_where :: "'f where_clause option"

subsection \<open>The parser\<close>

definition COMPARISON_OPS :: "string list" where
  "COMPARISON_OPS = [''>='', ''<='', ''!='', ''='', ''>'', ''<'']"

definition split_select_from :: "string \<Rightarrow> error + (string \<times> string)" where
  \<comment> \<open>lines 17 to 33: the select body and the text after the FROM keyword\<close>
  "split_select_from sql =
     (if sql = [] \<or> strip sql = [] then Inl (SQLParseError EmptyInput)
      else let s = normalize_whitespace (rstrip_char CHR '';'' (strip sql)) in
        if \<not> startswith (upper s) ''SELECT '' then Inl (SQLParseError MissingSelect)
        else if \<not> contains (upper s) '' FROM '' then Inl (SQLParseError MissingFrom)
        else (case (if contains s '' from '' then split_once s '' from ''
                    else split_once s '' FROM '') of
                None \<Rightarrow> Inl ValueError
              | Some (raw_select_part, raw_rest) \<Rightarrow>
                  Inr (strip (drop (length ''SELECT '') raw_select_part), raw_rest)))"

definition split_table_where :: "string \<Rightarrow> error + (string \<times> string option)" where
  \<comment> \<open>lines 36 to 44: the table segment and the predicate segment\<close>
  "split_table_where raw_rest =
     (if contains (upper raw_rest) '' WHERE ''
      then (case re_split_where raw_rest of
              p0 # p1 # ps \<Rightarrow> Inr (strip p0, Some (strip p1))
            | _ \<Rightarrow> Inl IndexError)
      else Inr (strip raw_rest, None))"

definition select_columns :: "string \<Rightarrow> string list" where
  \<comment> \<open>line 72: \<^verbatim>\<open>[c.strip().lower() for c in select_body.split(",") if c.strip()]\<close>\<close>
  "select_columns select_body =
     map (\<lambda>c. lower (strip c)) (filter (\<lambda>c. strip c \<noteq> []) (split_char CHR '','' select_body))"

definition parse_select :: "string \<Rightarrow> error + selection" where
  \<comment> \<open>lines 52 to 82\<close>
  "parse_select select_body =
     (if startswith (upper select_body) ''COUNT(''
      then (case count_match select_body of
              None \<Rightarrow> Inl (SQLParseError InvalidCount)
            | Some g \<Rightarrow> Inr (SelCount (lower g)))
      else if select_body = ''*'' then Inr (SelCols [''*''])
      else let cols = select_columns select_body in
        if cols = [] then Inl (SQLParseError EmptySelection)
        else (case find (\<lambda>c. \<not> is_identifier c) cols of
                Some c \<Rightarrow> Inl (SQLParseError (InvalidColumn c))
              | None \<Rightarrow> Inr (SelCols cols)))"

fun find_op :: "string list \<Rightarrow> string \<Rightarrow> string option" where
  \<comment> \<open>lines 89 to 93: the first candidate of the list that occurs in the predicate segment\<close>
  "find_op [] where_body = None"
| "find_op (candidate # rest) where_body =
     (if contains where_body candidate then Some candidate else find_op rest where_body)"

definition parse_value :: "'f float_ops \<Rightarrow> string \<Rightarrow> error + 'f literal" where
  \<comment> \<open>lines 107 to 124\<close>
  "parse_value fo raw_val =
     (if startswith raw_val [CHR 0x27] \<and> endswith raw_val [CHR 0x27]
      then Inr (LStr (butlast (drop 1 raw_val)))
      else (case (if CHR ''.'' \<in> set raw_val
                  then map_option NFloat (float_of_str fo raw_val)
                  else map_option NInt (py_int raw_val)) of
              Some n \<Rightarrow> Inr (LNum n)
            | None \<Rightarrow>
                if is_bare_word raw_val then Inr (LStr raw_val)
                else Inl (SQLParseError InvalidWhereValue)))"

definition parse_where :: "'f float_ops \<Rightarrow> string option \<Rightarrow> error + 'f where_clause option" where
  \<comment> \<open>lines 87 to 126; an absent or empty predicate segment gives no predicate\<close>
  "parse_where fo where_body =
     (case where_body of
        None \<Rightarrow> Inr None
      | Some wb \<Rightarrow>
          if wb = [] then Inr None
          else (case find_op COMPARISON_OPS wb of
                  None \<Rightarrow> Inl (SQLParseError MissingOperator)
                | Some op \<Rightarrow>
                    (case split_once wb op of
                       None \<Rightarrow> Inl ValueError
                     | Some (left, right) \<Rightarrow>
                         let col = lower (strip left); raw_val = strip right in
                         if \<not> is_identifier col then Inl (SQLParseError (InvalidWhereColumn col))
                         else (case parse_value fo raw_val of
                                 Inl e \<Rightarrow> Inl e
                               | Inr v \<Rightarrow> Inr (Some \<lparr>w_col = col, w_op = op, w_val = v\<rparr>)))))"

definition parse :: "'f float_ops \<Rightarrow> string \<Rightarrow> error + 'f query" where
  "parse fo sql =
     (case split_select_from sql of
        Inl e \<Rightarrow> Inl e
      | Inr (select_body, raw_rest) \<Rightarrow>
          (case split_table_where raw_rest of
             Inl e \<Rightarrow> Inl e
           | Inr (from_part, where_body) \<Rightarrow>
               (case parse_select select_body of
                  Inl e \<Rightarrow> Inl e
                | Inr sel \<Rightarrow>
                    (case parse_where fo where_body of
                       Inl e \<Rightarrow> Inl e
                     | Inr wh \<Rightarrow>
                         Inr \<lparr>q_select = sel, q_from = lower from_part, q_where = wh\<rparr>))))"

subsection \<open>Tables and results\<close>

datatype 'f scalar = SNull | SInt int | SFloat 'f | SStr string

text \<open>
  A row is a Python dictionary from column names to values. Its order is the order of the
  columns, so it is an association list; \<^verbatim>\<open>list(r.keys())\<close> is the list of the first
  components and \<^verbatim>\<open>r.get(c)\<close> looks the name up, giving \<^verbatim>\<open>None\<close> when it is absent.
\<close>

type_synonym 'f row = "(string \<times> 'f scalar) list"

definition keys :: "'f row \<Rightarrow> string list" where
  "keys r = map fst r"

definition row_get :: "'f row \<Rightarrow> string \<Rightarrow> 'f scalar" where
  "row_get r c = (case map_of r c of None \<Rightarrow> SNull | Some v \<Rightarrow> v)"

record 'f engine =
  tables :: "string \<rightharpoonup> 'f row list"

record 'f result =
  r_cols :: "string list"
  r_rows :: "'f scalar list list"

subsection \<open>The executor\<close>

definition resolve_table :: "'f engine \<Rightarrow> string \<Rightarrow> error + string" where
  "resolve_table eng table_name =
     (let key = lower table_name in
      if key \<in> dom (tables eng) then Inr key else Inl (TableNotFoundError table_name))"

fun resolve_loop :: "string list \<Rightarrow> string list \<Rightarrow> string list \<Rightarrow> error + string list" where
  \<comment> \<open>the loop of \<^verbatim>\<open>_resolve_columns_case_insensitive\<close>, with the names resolved so far\<close>
  "resolve_loop actual_cols resolved [] = Inr resolved"
| "resolve_loop actual_cols resolved (rc # rcs) =
     (if rc = ''*'' then Inr actual_cols
      else (case index_of (map lower actual_cols) (lower rc) of
              None \<Rightarrow> Inl (ColumnError rc)
            | Some i \<Rightarrow> resolve_loop actual_cols (resolved @ [actual_cols ! i]) rcs))"

definition resolve_columns_case_insensitive :: "'f row list \<Rightarrow> string list \<Rightarrow> error + string list" where
  "resolve_columns_case_insensitive rows requested_cols =
     (case rows of
        [] \<Rightarrow> Inr requested_cols
      | r0 # rs \<Rightarrow> resolve_loop (keys r0) [] requested_cols)"

fun str_lt :: "string \<Rightarrow> string \<Rightarrow> bool" where
  \<comment> \<open>\<^verbatim>\<open>a < b\<close> on text: lexicographic, by character code\<close>
  "str_lt [] [] = False"
| "str_lt [] (b # bs) = True"
| "str_lt (a # as) [] = False"
| "str_lt (a # as) (b # bs) =
     ((of_char a :: nat) < of_char b \<or> (a = b \<and> str_lt as bs))"

definition cmp_str :: "string \<Rightarrow> string \<Rightarrow> cmp_result" where
  "cmp_str a b = (if a = b then EQ else if str_lt a b then LT else GT)"

definition cmp_num :: "'f float_ops \<Rightarrow> 'f number \<Rightarrow> 'f \<Rightarrow> cmp_result" where
  "cmp_num fo left right =
     (case left of NInt i \<Rightarrow> cmp_int_float fo i right | NFloat x \<Rightarrow> cmp_float fo x right)"

definition compare :: "cmp_result \<Rightarrow> string \<Rightarrow> bool" where
  \<comment> \<open>the local function \<^verbatim>\<open>compare(left, op, right)\<close>, given how \<open>left\<close> and \<open>right\<close>
      compare; an operator outside the list gives \<open>False\<close>. (Its guards for \<^verbatim>\<open>None\<close> and for
      an exception are never taken: \<open>left\<close> is a number or text, and so is \<open>right\<close>.)\<close>
  "compare c op =
     (if op = ''='' then c = EQ
      else if op = ''!='' then c \<noteq> EQ
      else if op = ''>'' then c = GT
      else if op = ''<'' then c = LT
      else if op = ''>='' then c = GT \<or> c = EQ
      else if op = ''<='' then c = LT \<or> c = EQ
      else False)"

definition coerce_cell :: "'f float_ops \<Rightarrow> 'f scalar \<Rightarrow> 'f number option" where
  \<comment> \<open>line 175, the coercion of the cell for a numeric operand; \<open>None\<close> is the exception
      that makes the loop skip the row\<close>
  "coerce_cell fo cell =
     (case cell of
        SStr s \<Rightarrow>
          if CHR ''.'' \<in> set s then map_option NFloat (float_of_str fo s)
          else if isdigit s then map_option NInt (py_int s)
          else map_option NFloat (float_of_str fo s)
      | SInt i \<Rightarrow> Some (NInt i)
      | SFloat x \<Rightarrow> Some (NFloat x)
      | SNull \<Rightarrow> None)"

definition to_float :: "'f float_ops \<Rightarrow> 'f number \<Rightarrow> 'f option" where
  \<comment> \<open>\<^verbatim>\<open>float(val)\<close> of the numeric operand\<close>
  "to_float fo n = (case n of NInt i \<Rightarrow> float_of_int fo i | NFloat x \<Rightarrow> Some x)"

definition py_str :: "'f float_ops \<Rightarrow> 'f scalar \<Rightarrow> string" where
  \<comment> \<open>\<^verbatim>\<open>str(cell)\<close>\<close>
  "py_str fo cell =
     (case cell of
        SStr s \<Rightarrow> s
      | SInt i \<Rightarrow> str_of_int i
      | SFloat x \<Rightarrow> str_of_float fo x
      | SNull \<Rightarrow> ''None'')"

definition row_matches :: "'f float_ops \<Rightarrow> string \<Rightarrow> string \<Rightarrow> 'f literal \<Rightarrow> 'f row \<Rightarrow> error + bool" where
  \<comment> \<open>the body of the loop of \<^verbatim>\<open>_apply_where\<close>: whether the row is kept\<close>
  "row_matches fo real_col op val r =
     (case row_get r real_col of
        SNull \<Rightarrow> Inr False
      | cell \<Rightarrow>
          (case val of
             LNum n \<Rightarrow>
               (case coerce_cell fo cell of
                  None \<Rightarrow> Inr False
                | Some left_val \<Rightarrow>
                    (case to_float fo n of
                       None \<Rightarrow> Inl OverflowError
                     | Some right_val \<Rightarrow> Inr (compare (cmp_num fo left_val right_val) op)))
           | LStr t \<Rightarrow> Inr (compare (cmp_str (py_str fo cell) t) op)))"

fun where_loop :: "'f float_ops \<Rightarrow> string \<Rightarrow> string \<Rightarrow> 'f literal \<Rightarrow> 'f row list \<Rightarrow> error + 'f row list" where
  "where_loop fo real_col op val [] = Inr []"
| "where_loop fo real_col op val (r # rs) =
     (case row_matches fo real_col op val r of
        Inl e \<Rightarrow> Inl e
      | Inr keep \<Rightarrow>
          (case where_loop fo real_col op val rs of
             Inl e \<Rightarrow> Inl e
           | Inr filtered \<Rightarrow> Inr (if keep then r # filtered else filtered)))"

definition apply_where :: "'f float_ops \<Rightarrow> 'f row list \<Rightarrow> 'f where_clause \<Rightarrow> error + 'f row list" where
  "apply_where fo rows wh =
     (case rows of
        [] \<Rightarrow> Inr []
      | r0 # rs \<Rightarrow>
          (case index_of (map lower (keys r0)) (lower (w_col wh)) of
             None \<Rightarrow> Inl (ColumnError (w_col wh))
           | Some i \<Rightarrow> where_loop fo (keys r0 ! i) (w_op wh) (w_val wh) rows))"

definition project :: "string list \<Rightarrow> 'f row list \<Rightarrow> 'f scalar list list" where
  \<comment> \<open>\<^verbatim>\<open>[[r.get(c) for c in cols] for r in rows]\<close>\<close>
  "project cols rows = map (\<lambda>r. map (row_get r) cols) rows"

definition execute_parsed :: "'f float_ops \<Rightarrow> 'f engine \<Rightarrow> 'f query \<Rightarrow> error + 'f result" where
  \<comment> \<open>\<^verbatim>\<open>Engine.execute\<close> after its call of \<open>parse\<close>\<close>
  "execute_parsed fo eng parsed =
     (case resolve_table eng (q_from parsed) of
        Inl e \<Rightarrow> Inl e
      | Inr table_key \<Rightarrow>
     (case tables eng table_key of
        None \<Rightarrow> Inl KeyError
      | Some table_rows \<Rightarrow>
     (case (case q_where parsed of
              None \<Rightarrow> Inr table_rows
            | Some wh \<Rightarrow> apply_where fo table_rows wh) of
        Inl e \<Rightarrow> Inl e
      | Inr rows \<Rightarrow>
     (case q_select parsed of
        SelCount count_col \<Rightarrow>
          if count_col = ''*''
          then Inr \<lparr>r_cols = [''COUNT(*)''], r_rows = [[SInt (int (length rows))]]\<rparr>
          else if rows = []
          then Inr \<lparr>r_cols = [''COUNT('' @ count_col @ '')''], r_rows = [[SInt 0]]\<rparr>
          else (case resolve_columns_case_insensitive rows [count_col] of
                  Inl e \<Rightarrow> Inl e
                | Inr [] \<Rightarrow> Inl IndexError
                | Inr (resolved # others) \<Rightarrow>
                    Inr \<lparr>r_cols = [''COUNT('' @ count_col @ '')''],
                         r_rows = [[SInt (int (length (filter (\<lambda>r. row_get r resolved \<noteq> SNull) rows)))]]\<rparr>)
      | SelCols req_cols \<Rightarrow>
          if req_cols = [''*'']
          then (let cols = (case rows of [] \<Rightarrow> [] | r0 # rs \<Rightarrow> keys r0)
                in Inr \<lparr>r_cols = cols, r_rows = project cols rows\<rparr>)
          else (case (if rows \<noteq> [] then resolve_columns_case_insensitive rows req_cols
                      else Inr req_cols) of
                  Inl e \<Rightarrow> Inl e
                | Inr resolved_cols \<Rightarrow>
                    Inr \<lparr>r_cols = resolved_cols, r_rows = project resolved_cols rows\<rparr>)))))"

definition execute :: "'f float_ops \<Rightarrow> 'f engine \<Rightarrow> string \<Rightarrow> (error + 'f result) \<times> 'f engine" where
  \<comment> \<open>\<^verbatim>\<open>Engine.execute(self, sql)\<close>: what the call returns or raises, and the engine after it\<close>
  "execute fo eng sql =
     (case parse fo sql of
        Inl e \<Rightarrow> (Inl e, eng)
      | Inr parsed \<Rightarrow> (execute_parsed fo eng parsed, eng))"

subsection \<open>The executor on a store of objects\<close>

text \<open>
  The executor above passes tables as values. To state what \<^verbatim>\<open>execute\<close> does to the objects
  of the engine, the same code is modelled once more on a store of objects. \<^verbatim>\<open>self.tables\<close> maps
  a table name to a reference to a list object; a list object holds references to row
  dictionaries. A reference is the index of the object in the store. The store tells apart two
  lists with the same contents, so that appending to one of them is visible in that one only.

  Of the store operations, \<^verbatim>\<open>[]\<close> allocates a list object and \<^verbatim>\<open>append\<close> writes one.
  \<^verbatim>\<open>in\<close>, indexing, \<^verbatim>\<open>len\<close>, iteration, \<^verbatim>\<open>keys()\<close> and \<^verbatim>\<open>get\<close> read the store. The parsed query,
  the lists of column names and the result are built from text and numbers by the call itself;
  nothing in the store refers to them, and they are values here.
\<close>

type_synonym addr = nat

record 'f store =
  registry :: "(string \<times> addr) list"
  list_objs :: "addr list list"
  dict_objs :: "'f row list"

text \<open>Reading a list or a dictionary through a reference.\<close>

definition list_at :: "'f store \<Rightarrow> addr \<Rightarrow> addr list" where
  "list_at s a = (if a < length (list_objs s) then list_objs s ! a else [])"

definition dict_at :: "'f store \<Rightarrow> addr \<Rightarrow> 'f row" where
  "dict_at s a = (if a < length (dict_objs s) then dict_objs s ! a else [])"

definition rows_at :: "'f store \<Rightarrow> addr \<Rightarrow> 'f row list" where
  "rows_at s a = map (dict_at s) (list_at s a)"

text \<open>\<^verbatim>\<open>[]\<close>: a new list object, at the next free index.\<close>

definition new_list :: "'f store \<Rightarrow> addr \<times> 'f store" where
  "new_list s = (length (list_objs s), s\<lparr>list_objs := list_objs s @ [[]]\<rparr>)"

text \<open>\<^verbatim>\<open>lst.append(r)\<close>: the list object at \<open>a\<close> gets one more reference.\<close>

definition list_append :: "'f store \<Rightarrow> addr \<Rightarrow> addr \<Rightarrow> 'f store" where
  "list_append s a r = s\<lparr>list_objs := (list_objs s)[a := list_at s a @ [r]]\<rparr>"

text \<open>The tables that a store holds, as values: the engine of the executor above.\<close>

definition engine_of :: "'f store \<Rightarrow> 'f engine" where
  "engine_of s = \<lparr>tables = (\<lambda>name. map_option (rows_at s) (map_of (registry s) name))\<rparr>"

text \<open>No table name refers to a list object that does not exist.\<close>

definition well_formed :: "'f store \<Rightarrow> bool" where
  "well_formed s = list_all (\<lambda>entry. snd entry < length (list_objs s)) (registry s)"

text \<open>
  The loop of \<^verbatim>\<open>_apply_where\<close>, lines 166 to 185. \<^verbatim>\<open>for r in rows\<close> reads the list object
  \<open>rows\<close> at the next index until the index reaches its length, and \<^verbatim>\<open>filtered.append(r)\<close>
  writes the list object \<open>filtered\<close>. The loop is given the two references; it need not end
  when they are the same.
\<close>

partial_function (option) where_loop_st ::
  "'f float_ops \<Rightarrow> string \<Rightarrow> string \<Rightarrow> 'f literal \<Rightarrow> addr \<Rightarrow> addr \<Rightarrow> nat \<Rightarrow> 'f store \<Rightarrow>
     ((error + unit) \<times> 'f store) option" where
  "where_loop_st fo real_col op val rows filtered i s =
     (if i < length (list_at s rows) then
        (case row_matches fo real_col op val (dict_at s (list_at s rows ! i)) of
           Inl e \<Rightarrow> Some (Inl e, s)
         | Inr keep \<Rightarrow>
             where_loop_st fo real_col op val rows filtered (Suc i)
               (if keep then list_append s filtered (list_at s rows ! i) else s))
      else Some (Inr (), s))"

text \<open>
  \<^verbatim>\<open>_apply_where\<close>: it returns a reference to a new list object, the empty list of line 130 or
  \<open>filtered\<close> of line 165.
\<close>

definition apply_where_st ::
  "'f float_ops \<Rightarrow> 'f store \<Rightarrow> addr \<Rightarrow> 'f where_clause \<Rightarrow> ((error + addr) \<times> 'f store) option" where
  "apply_where_st fo s rows wh =
     (if list_at s rows = [] then (case new_list s of (nothing, s1) \<Rightarrow> Some (Inr nothing, s1))
      else
        (let r0 = dict_at s (list_at s rows ! 0) in
         case index_of (map lower (keys r0)) (lower (w_col wh)) of
           None \<Rightarrow> Some (Inl (ColumnError (w_col wh)), s)
         | Some i \<Rightarrow>
             (case new_list s of (filtered, s1) \<Rightarrow>
                (case where_loop_st fo (keys r0 ! i) (w_op wh) (w_val wh) rows filtered 0 s1 of
                   None \<Rightarrow> None
                 | Some (Inl e, s2) \<Rightarrow> Some (Inl e, s2)
                 | Some (Inr u, s2) \<Rightarrow> Some (Inr filtered, s2)))))"

text \<open>Lines 99 to 123 of \<^verbatim>\<open>execute\<close>, which read the rows and build the result.\<close>

definition select_result :: "'f row list \<Rightarrow> selection \<Rightarrow> error + 'f result" where
  "select_result rows sel =
     (case sel of
        SelCount count_col \<Rightarrow>
          if count_col = ''*''
          then Inr \<lparr>r_cols = [''COUNT(*)''], r_rows = [[SInt (int (length rows))]]\<rparr>
          else if rows = []
          then Inr \<lparr>r_cols = [''COUNT('' @ count_col @ '')''], r_rows = [[SInt 0]]\<rparr>
          else (case resolve_columns_case_insensitive rows [count_col] of
                  Inl e \<Rightarrow> Inl e
                | Inr [] \<Rightarrow> Inl IndexError
                | Inr (resolved # others) \<Rightarrow>
                    Inr \<lparr>r_cols = [''COUNT('' @ count_col @ '')''],
                         r_rows = [[SInt (int (length (filter (\<lambda>r. row_get r resolved \<noteq> SNull) rows)))]]\<rparr>)
      | SelCols req_cols \<Rightarrow>
          if req_cols = [''*'']
          then (let cols = (case rows of [] \<Rightarrow> [] | r0 # rs \<Rightarrow> keys r0)
                in Inr \<lparr>r_cols = cols, r_rows = project cols rows\<rparr>)
          else (case (if rows \<noteq> [] then resolve_columns_case_insensitive rows req_cols
                      else Inr req_cols) of
                  Inl e \<Rightarrow> Inl e
                | Inr resolved_cols \<Rightarrow>
                    Inr \<lparr>r_cols = resolved_cols, r_rows = project resolved_cols rows\<rparr>))"

definition resolve_table_st :: "'f store \<Rightarrow> string \<Rightarrow> error + string" where
  "resolve_table_st s table_name =
     (let key = lower table_name in
      if map_of (registry s) key \<noteq> None then Inr key else Inl (TableNotFoundError table_name))"

definition execute_parsed_st ::
  "'f float_ops \<Rightarrow> 'f store \<Rightarrow> 'f query \<Rightarrow> ((error + 'f result) \<times> 'f store) option" where
  "execute_parsed_st fo s parsed =
     (case resolve_table_st s (q_from parsed) of
        Inl e \<Rightarrow> Some (Inl e, s)
      | Inr table_key \<Rightarrow>
     (case map_of (registry s) table_key of
        None \<Rightarrow> Some (Inl KeyError, s)
      | Some table_rows \<Rightarrow>
     (case q_where parsed of
        None \<Rightarrow> Some (select_result (rows_at s table_rows) (q_select parsed), s)
      | Some wh \<Rightarrow>
          (case apply_where_st fo s table_rows wh of
             None \<Rightarrow> None
           | Some (Inl e, s1) \<Rightarrow> Some (Inl e, s1)
           | Some (Inr rows, s1) \<Rightarrow>
               Some (select_result (rows_at s1 rows) (q_select parsed), s1)))))"

text \<open>\<^verbatim>\<open>Engine.execute(self, sql)\<close>: what the call returns or raises, and the store after it.\<close>

definition execute_st ::
  "'f float_ops \<Rightarrow> 'f store \<Rightarrow> string \<Rightarrow> ((error + 'f result) \<times> 'f store) option" where
  "execute_st fo s sql =
     (case parse fo sql of
        Inl e \<Rightarrow> Some (Inl e, s)
      | Inr parsed \<Rightarrow> execute_parsed_st fo s parsed)"

subsection \<open>An executable stand-in for the float operations\<close>

text \<open>
  The examples below need some implementation of \<open>float_ops\<close> to run on. This one computes
  with exact decimal fractions: the pair \<open>(m, k)\<close> stands for \<open>m / 10 ^ k\<close>. It takes the place
  of binary64 in closed examples only; they use whole numbers far below \<open>2 ^ 53\<close>, which
  binary64 holds exactly.
\<close>

definition cmp_int :: "int \<Rightarrow> int \<Rightarrow> cmp_result" where
  "cmp_int a b = (if a < b then LT else if a = b then EQ else GT)"

definition decimal_of_str :: "string \<Rightarrow> (int \<times> nat) option" where
  "decimal_of_str s =
     (let t = strip s;
          neg = startswith t ''-'';
          u = (if neg \<or> startswith t ''+'' then drop 1 t else t)
      in case split_once u ''.'' of
           None \<Rightarrow>
             if isdigit u
             then map_option (\<lambda>n. (if neg then - int n else int n, 0)) (nat_literal u)
             else None
         | Some (a, b) \<Rightarrow>
             let b' = rev (dropWhile (\<lambda>c. c = CHR ''0'') (rev b)) in
             if (a = [] \<and> b = []) \<or> \<not> list_all is_digit (a @ b) then None
             else map_option (\<lambda>n. (if neg then - int n else int n, length b'))
                    (nat_literal (''0'' @ a @ b')))"

definition str_of_decimal :: "int \<times> nat \<Rightarrow> string" where
  "str_of_decimal x =
     (case x of (m, k) \<Rightarrow>
        let n = nat \<bar>m\<bar>;
            whole = str_of_nat (n div 10 ^ k);
            frac = str_of_nat (n mod 10 ^ k)
        in (if m < 0 then ''-'' else []) @ whole @ ''.'' @
           (if k = 0 then ''0'' else replicate (k - length frac) (CHR ''0'') @ frac))"

definition decimal_floats :: "(int \<times> nat) float_ops" where
  "decimal_floats =
     \<lparr>float_of_str = decimal_of_str,
      float_of_int = (\<lambda>i. Some (i, 0)),
      str_of_float = str_of_decimal,
      cmp_float = (\<lambda>x y. case x of (m, k) \<Rightarrow> case y of (n, j) \<Rightarrow> cmp_int (m * 10 ^ j) (n * 10 ^ k)),
      cmp_int_float = (\<lambda>i y. case y of (n, j) \<Rightarrow> cmp_int (i * 10 ^ j) n)\<rparr>"

subsection \<open>Example tables\<close>

definition people_table :: "(int \<times> nat) row list" where
  "people_table =
     [[(''id'', SInt 1), (''Name'', SStr ''ann''), (''age'', SInt 25)],
      [(''id'', SInt 2), (''Name'', SStr ''bob''), (''age'', SInt 40)],
      [(''id'', SInt 3), (''Name'', SStr ''cy''), (''age'', SNull)]]"

definition people_engine :: "(int \<times> nat) engine" where
  "people_engine = \<lparr>tables = [''people'' \<mapsto> people_table]\<rparr>"

definition case_clash_engine :: "(int \<times> nat) engine" where
  \<comment> \<open>a table whose two column names differ in letter case only\<close>
  "case_clash_engine = \<lparr>tables = [''t'' \<mapsto> [[(''a'', SInt 1), (''A'', SInt 2)]]]\<rparr>"

text \<open>The same table in a store: one list object and three row dictionaries.\<close>

definition people_store :: "(int \<times> nat) store" where
  "people_store = \<lparr>registry = [(''people'', 0)], list_objs = [[0, 1, 2]], dict_objs = people_table\<rparr>"

section \<open>Properties\<close>

subsection \<open>Text and list lemmas\<close>

lemma startswith_iff: "startswith s p \<longleftrightarrow> (\<exists>r. s = p @ r)"
  by (induction s p rule: startswith.induct) auto

lemma contains_iff: "contains s sub \<longleftrightarrow> (\<exists>l r. s = l @ sub @ r)"
proof (induction s)
  case Nil
  then show ?case by auto
next
  case (Cons c cs)
  show ?case
  proof
    assume "contains (c # cs) sub"
    then consider "startswith (c # cs) sub" | "contains cs sub" by auto
    then show "\<exists>l r. c # cs = l @ sub @ r"
    proof cases
      case 1
      then obtain r where "c # cs = sub @ r" by (auto simp: startswith_iff)
      then have "c # cs = [] @ sub @ r" by simp
      then show ?thesis by blast
    next
      case 2
      then obtain l r where "cs = l @ sub @ r" using Cons.IH by auto
      then have "c # cs = (c # l) @ sub @ r" by simp
      then show ?thesis by blast
    qed
  next
    assume "\<exists>l r. c # cs = l @ sub @ r"
    then obtain l r where lr: "c # cs = l @ sub @ r" by blast
    show "contains (c # cs) sub"
    proof (cases l)
      case Nil
      with lr have "startswith (c # cs) sub" by (auto simp: startswith_iff)
      then show ?thesis by simp
    next
      case (Cons a l')
      with lr have "cs = l' @ sub @ r" by simp
      then have "contains cs sub" using Cons.IH by blast
      then show ?thesis by simp
    qed
  qed
qed

lemma split_once_append:
  "split_once s sep = Some (l, r) \<Longrightarrow> s = l @ sep @ r"
proof (induction s arbitrary: l)
  case Nil
  then show ?case by simp
next
  case (Cons c cs)
  show ?case
  proof (cases "startswith (c # cs) sep")
    case True
    then obtain t where t: "c # cs = sep @ t" by (auto simp: startswith_iff)
    from True Cons.prems have "l = []" "r = drop (length sep) (c # cs)" by auto
    with t show ?thesis by simp
  next
    case False
    with Cons.prems obtain l0 where "split_once cs sep = Some (l0, r)" "l = c # l0"
      by (auto split: option.splits)
    with Cons.IH show ?thesis by simp
  qed
qed

lemma split_once_leftmost:
  "split_once s sep = Some (l, r) \<Longrightarrow> s = l' @ sep @ r' \<Longrightarrow> length l \<le> length l'"
proof (induction s arbitrary: l l')
  case Nil
  then show ?case by simp
next
  case (Cons c cs)
  show ?case
  proof (cases "startswith (c # cs) sep")
    case True
    with Cons.prems(1) have "l = []" by simp
    then show ?thesis by simp
  next
    case False
    with Cons.prems(1) obtain l0 where l0: "split_once cs sep = Some (l0, r)" "l = c # l0"
      by (auto split: option.splits)
    have "l' \<noteq> []"
    proof
      assume "l' = []"
      with Cons.prems(2) have "c # cs = sep @ r'" by simp
      then have "startswith (c # cs) sep" unfolding startswith_iff by blast
      with False show False by simp
    qed
    then obtain a l'' where "l' = a # l''" by (cases l') auto
    with Cons.prems(2) have l'': "l' = c # l''" "cs = l'' @ sep @ r'" by auto
    from Cons.IH[OF l0(1) l''(2)] l0(2) l''(1) show ?thesis by simp
  qed
qed

lemma find_op_Some:
  "find_op cands wb = Some op \<Longrightarrow>
     \<exists>before after. cands = before @ op # after \<and> contains wb op \<and> (\<forall>c \<in> set before. \<not> contains wb c)"
proof (induction cands)
  case Nil
  then show ?case by simp
next
  case (Cons c cs)
  show ?case
  proof (cases "contains wb c")
    case True
    with Cons.prems have "op = c" by simp
    with True have "c # cs = [] @ op # cs \<and> contains wb op \<and> (\<forall>c \<in> set []. \<not> contains wb c)" by simp
    then show ?thesis by blast
  next
    case False
    with Cons.prems have "find_op cs wb = Some op" by simp
    from Cons.IH[OF this] obtain before after where
      ba: "cs = before @ op # after" "contains wb op" "\<forall>c \<in> set before. \<not> contains wb c" by blast
    with False have "c # cs = (c # before) @ op # after \<and> contains wb op \<and> (\<forall>x \<in> set (c # before). \<not> contains wb x)"
      by simp
    then show ?thesis by blast
  qed
qed

lemma find_op_first:
  "cands = before @ op # after \<Longrightarrow> \<forall>c \<in> set before. \<not> contains wb c \<Longrightarrow> contains wb op \<Longrightarrow>
     find_op cands wb = Some op"
  by (induction before arbitrary: cands) auto

lemma find_op_None_iff:
  "find_op cands wb = None \<longleftrightarrow> (\<forall>c \<in> set cands. \<not> contains wb c)"
  by (induction cands) auto

lemma split_once_Some:
  "contains s sep \<Longrightarrow> sep \<noteq> [] \<Longrightarrow> \<exists>l r. split_once s sep = Some (l, r)"
  by (induction s) (auto split: option.splits)

lemma candidates_not_empty: "op \<in> set COMPARISON_OPS \<Longrightarrow> op \<noteq> []"
  by (auto simp: COMPARISON_OPS_def)

lemma index_of_find:
  "index_of (map f xs) y = Some i \<Longrightarrow> find (\<lambda>k. f k = y) xs = Some (xs ! i) \<and> i < length xs"
  by (induction xs arbitrary: i) (auto split: if_splits)

lemma index_of_distinct:
  "distinct (map f xs) \<Longrightarrow> i < length xs \<Longrightarrow> index_of (map f xs) (f (xs ! i)) = Some i"
proof (induction xs arbitrary: i)
  case Nil
  then show ?case by simp
next
  case (Cons x xs)
  show ?case
  proof (cases i)
    case 0
    then show ?thesis by simp
  next
    case (Suc j)
    with Cons.prems have j: "j < length xs" by simp
    then have "xs ! j \<in> set xs" by simp
    with Cons.prems(1) have "f (xs ! j) \<noteq> f x" by (auto simp: image_iff)
    with Cons.IH[of j] Cons.prems(1) Suc j show ?thesis by auto
  qed
qed

lemma where_loop_filter:
  "where_loop fo c op v rows = Inr out \<Longrightarrow>
     out = filter (\<lambda>r. row_matches fo c op v r = Inr True) rows"
  by (induction rows arbitrary: out) (auto split: sum.splits if_splits)

lemma row_matches_null: "row_get r c = SNull \<Longrightarrow> row_matches fo c op v r = Inr False"
  by (simp add: row_matches_def)


subsection \<open>Unfolding closed examples\<close>

lemmas char_defs = is_space_def is_upper_letter_def is_lower_letter_def is_digit_def
  upper_char_def lower_char_def upper_letters_def lower_letters_def digits_def

lemmas text_defs = upper_def lower_def lstrip_def rstrip_def strip_def rstrip_char_def
  endswith_def normalize_whitespace_def

lemmas parser_defs = parse_def split_select_from_def split_table_where_def parse_select_def
  select_columns_def parse_where_def parse_value_def where_at_def COMPARISON_OPS_def
  is_identifier_def is_bare_word_def dollar_end_def ident_core_def is_ident_start_def
  is_ident_char_def py_int_def nat_literal_def digit_val_def count_match_def isdigit_def

lemmas engine_defs = execute_def execute_parsed_def resolve_table_def
  resolve_columns_case_insensitive_def apply_where_def keys_def row_get_def row_matches_def
  coerce_cell_def to_float_def cmp_num_def cmp_str_def compare_def project_def py_str_def
  decimal_floats_def cmp_int_def people_engine_def people_table_def case_clash_engine_def

lemmas store_defs = execute_st_def execute_parsed_st_def resolve_table_st_def apply_where_st_def
  select_result_def new_list_def list_append_def list_at_def dict_at_def rows_at_def
  engine_of_def people_store_def

subsection \<open>What the parser hands to the executor\<close>

lemma star_is_no_identifier: "\<not> is_identifier ''*''"
  by (simp add: parser_defs char_defs)

lemma parse_select_cols:
  "parse_select select_body = Inr (SelCols cs) \<Longrightarrow> cs = [''*''] \<or> (\<forall>c \<in> set cs. is_identifier c)"
  by (auto simp: parse_select_def Let_def find_None_iff split: if_splits option.splits)

lemma parse_q_select:
  "parse fo sql = Inr q \<Longrightarrow> \<exists>select_body. parse_select select_body = Inr (q_select q)"
  by (auto simp: parse_def split: sum.splits prod.splits)

lemma parsed_cols_have_no_star:
  assumes "parse fo sql = Inr q" and "q_select q = SelCols cs" and "cs \<noteq> [''*'']"
  shows "''*'' \<notin> set cs"
proof
  assume star: "''*'' \<in> set cs"
  from parse_q_select[OF assms(1)] assms(2) obtain select_body
    where "parse_select select_body = Inr (SelCols cs)" by auto
  from parse_select_cols[OF this] assms(3) have "\<forall>c \<in> set cs. is_identifier c" by simp
  with star have "is_identifier ''*''" by blast
  with star_is_no_identifier show False by simp
qed

subsection \<open>Resolving column names\<close>

lemma resolve_loop_names:
  "''*'' \<notin> set rcs \<Longrightarrow> resolve_loop actual acc rcs = Inr out \<Longrightarrow>
     \<exists>new. out = acc @ new \<and>
       list_all2 (\<lambda>rc c. find (\<lambda>k. lower k = lower rc) actual = Some c) rcs new"
proof (induction rcs arbitrary: acc)
  case Nil
  then show ?case by simp
next
  case (Cons rc rcs)
  from Cons.prems obtain i where
    i: "index_of (map lower actual) (lower rc) = Some i"
    and rest: "resolve_loop actual (acc @ [actual ! i]) rcs = Inr out"
    by (auto split: if_splits option.splits)
  from Cons.prems(1) have "''*'' \<notin> set rcs" by simp
  from Cons.IH[OF this rest] obtain new where
    new: "out = (acc @ [actual ! i]) @ new"
         "list_all2 (\<lambda>rc c. find (\<lambda>k. lower k = lower rc) actual = Some c) rcs new" by blast
  from index_of_find[OF i] have "find (\<lambda>k. lower k = lower rc) actual = Some (actual ! i)" by simp
  with new have "out = acc @ (actual ! i # new) \<and>
      list_all2 (\<lambda>rc c. find (\<lambda>k. lower k = lower rc) actual = Some c) (rc # rcs) (actual ! i # new)"
    by simp
  then show ?case by blast
qed

lemma resolve_loop_all:
  "distinct (map lower actual) \<Longrightarrow> map lower rcs = map lower (drop n actual) \<Longrightarrow>
     resolve_loop actual (take n actual) rcs = Inr actual"
proof (induction rcs arbitrary: n)
  case Nil
  then have "length actual \<le> n" by simp
  then show ?case by simp
next
  case (Cons rc rcs)
  from Cons.prems(2) have n: "n < length actual" by (cases "n < length actual") auto
  then have dr: "drop n actual = actual ! n # drop (Suc n) actual"
    by (simp add: Cons_nth_drop_Suc)
  with Cons.prems(2) have rc: "lower rc = lower (actual ! n)"
    and rest: "map lower rcs = map lower (drop (Suc n) actual)" by simp_all
  show ?case
  proof (cases "rc = ''*''")
    case True
    then show ?thesis by simp
  next
    case False
    from index_of_distinct[OF Cons.prems(1) n] rc
    have "index_of (map lower actual) (lower rc) = Some n" by simp
    moreover have "take n actual @ [actual ! n] = take (Suc n) actual"
      using n by (simp add: take_Suc_conv_app_nth)
    ultimately show ?thesis
      using False Cons.IH[OF Cons.prems(1) rest] by simp
  qed
qed

subsection \<open>The executor on a store and the executor on values\<close>

lemma list_append_fields:
  "registry (list_append s a r) = registry s"
  "dict_objs (list_append s a r) = dict_objs s"
  "length (list_objs (list_append s a r)) = length (list_objs s)"
  "dict_at (list_append s a r) = dict_at s"
  by (simp_all add: list_append_def dict_at_def fun_eq_iff)

lemma list_at_list_append:
  "list_at (list_append s a r) b =
     (if b = a \<and> a < length (list_objs s) then list_at s a @ [r] else list_at s b)"
  by (simp add: list_append_def list_at_def)

lemma execute_parsed_select_result:
  "execute_parsed fo eng parsed =
     (case resolve_table eng (q_from parsed) of
        Inl e \<Rightarrow> Inl e
      | Inr table_key \<Rightarrow>
     (case tables eng table_key of
        None \<Rightarrow> Inl KeyError
      | Some table_rows \<Rightarrow>
     (case (case q_where parsed of
              None \<Rightarrow> Inr table_rows
            | Some wh \<Rightarrow> apply_where fo table_rows wh) of
        Inl e \<Rightarrow> Inl e
      | Inr rows \<Rightarrow> select_result rows (q_select parsed))))"
  unfolding execute_parsed_def select_result_def by (rule refl)

lemma where_loop_st_run:
  assumes "filtered < length (list_objs s)" "rows \<noteq> filtered"
  shows "\<exists>res s'. where_loop_st fo c op v rows filtered i s = Some (res, s')
     \<and> registry s' = registry s \<and> dict_objs s' = dict_objs s
     \<and> length (list_objs s') = length (list_objs s)
     \<and> (\<forall>a. a \<noteq> filtered \<longrightarrow> list_at s' a = list_at s a)
     \<and> (case where_loop fo c op v (map (dict_at s) (drop i (list_at s rows))) of
          Inl e \<Rightarrow> res = Inl e
        | Inr out \<Rightarrow> res = Inr () \<and> rows_at s' filtered = rows_at s filtered @ out)"
  using assms
proof (induction "length (list_at s rows) - i" arbitrary: i s)
  case 0
  then have "\<not> i < length (list_at s rows)" by simp
  then show ?case
    by (subst where_loop_st.simps) simp
next
  case (Suc n)
  then have i: "i < length (list_at s rows)" by simp
  let ?r = "list_at s rows ! i"
  have dr: "drop i (list_at s rows) = ?r # drop (Suc i) (list_at s rows)"
    using i by (simp add: Cons_nth_drop_Suc)
  show ?case
  proof (cases "row_matches fo c op v (dict_at s ?r)")
    case (Inl e)
    with i dr show ?thesis
      by (subst where_loop_st.simps) simp
  next
    case (Inr keep)
    let ?s1 = "if keep then list_append s filtered ?r else s"
    have same: "list_at ?s1 rows = list_at s rows"
      using Suc.prems by (simp add: list_at_list_append)
    have d1: "dict_at ?s1 = dict_at s"
      by (simp add: list_append_fields)
    have f1: "filtered < length (list_objs ?s1)"
      using Suc.prems by (simp add: list_append_fields)
    have n: "n = length (list_at ?s1 rows) - Suc i"
      using Suc.hyps(2) same by simp
    from Suc.hyps(1)[OF n f1 Suc.prems(2)] obtain res s' where
      run: "where_loop_st fo c op v rows filtered (Suc i) ?s1 = Some (res, s')"
      and reg: "registry s' = registry ?s1" and dic: "dict_objs s' = dict_objs ?s1"
      and len: "length (list_objs s') = length (list_objs ?s1)"
      and oth: "\<forall>a. a \<noteq> filtered \<longrightarrow> list_at s' a = list_at ?s1 a"
      and out: "(case where_loop fo c op v (map (dict_at ?s1) (drop (Suc i) (list_at ?s1 rows))) of
          Inl e \<Rightarrow> res = Inl e
        | Inr out \<Rightarrow> res = Inr () \<and> rows_at s' filtered = rows_at ?s1 filtered @ out)"
      by blast
    have step: "where_loop_st fo c op v rows filtered i s = Some (res, s')"
      using i Inr run by (subst where_loop_st.simps) simp
    have reg': "registry s' = registry s" using reg by (simp add: list_append_fields)
    have dic': "dict_objs s' = dict_objs s" using dic by (simp add: list_append_fields)
    have len': "length (list_objs s') = length (list_objs s)"
      using len by (simp add: list_append_fields)
    have oth': "\<forall>a. a \<noteq> filtered \<longrightarrow> list_at s' a = list_at s a"
      using oth by (simp add: list_at_list_append)
    have r1: "rows_at ?s1 filtered =
                (if keep then rows_at s filtered @ [dict_at s ?r] else rows_at s filtered)"
      using Suc.prems(1) by (simp add: rows_at_def list_at_list_append list_append_fields)
    have out': "(case where_loop fo c op v (map (dict_at s) (drop i (list_at s rows))) of
          Inl e \<Rightarrow> res = Inl e
        | Inr out \<Rightarrow> res = Inr () \<and> rows_at s' filtered = rows_at s filtered @ out)"
      using out Inr unfolding dr same d1 r1
      by (auto split: sum.splits)
    from step reg' dic' len' oth' out' show ?thesis by blast
  qed
qed

lemma new_list_fields:
  "new_list s = (a, s1) \<Longrightarrow>
     a = length (list_objs s) \<and> registry s1 = registry s \<and> dict_objs s1 = dict_objs s \<and>
     list_objs s1 = list_objs s @ [[]]"
  by (auto simp: new_list_def)

lemma extends_by_one:
  assumes "length (list_objs s2) = length (list_objs s1)"
    and "\<forall>a. a \<noteq> length xs \<longrightarrow> list_at s2 a = list_at s1 a"
    and "list_objs s1 = xs @ [y]"
  shows "list_objs s2 = xs @ [list_at s2 (length xs)]"
proof (rule nth_equalityI)
  show "length (list_objs s2) = length (xs @ [list_at s2 (length xs)])"
    using assms(1,3) by simp
next
  fix i assume i: "i < length (list_objs s2)"
  show "list_objs s2 ! i = (xs @ [list_at s2 (length xs)]) ! i"
  proof (cases "i = length xs")
    case True
    with i show ?thesis by (simp add: list_at_def)
  next
    case False
    with i assms(1,3) have lt: "i < length xs" by simp
    from False assms(2) have "list_at s2 i = list_at s1 i" by simp
    with i assms(1,3) lt show ?thesis by (simp add: list_at_def nth_append)
  qed
qed

lemma rows_at_extend:
  assumes "list_objs s' = list_objs s @ fresh" "dict_objs s' = dict_objs s"
    and "a < length (list_objs s)"
  shows "rows_at s' a = rows_at s a" "list_at s' a = list_at s a"
  using assms by (simp_all add: rows_at_def list_at_def dict_at_def nth_append fun_eq_iff)

lemma apply_where_st_run:
  assumes "rows < length (list_objs s)"
  shows "\<exists>res s'. apply_where_st fo s rows wh = Some (res, s')
     \<and> registry s' = registry s \<and> dict_objs s' = dict_objs s
     \<and> (\<exists>fresh. list_objs s' = list_objs s @ fresh)
     \<and> (case apply_where fo (rows_at s rows) wh of
          Inl e \<Rightarrow> res = Inl e
        | Inr out \<Rightarrow> \<exists>a. res = Inr a \<and> rows_at s' a = out)"
proof (cases "list_at s rows = []")
  case True
  then have "apply_where_st fo s rows wh =
      Some (Inr (length (list_objs s)), s\<lparr>list_objs := list_objs s @ [[]]\<rparr>)"
    by (simp add: apply_where_st_def new_list_def)
  moreover have "rows_at (s\<lparr>list_objs := list_objs s @ [[]]\<rparr>) (length (list_objs s)) = []"
    by (simp add: rows_at_def list_at_def)
  moreover have "apply_where fo (rows_at s rows) wh = Inr []"
    using True by (simp add: apply_where_def rows_at_def)
  ultimately show ?thesis by simp
next
  case False
  then obtain r rest where lr: "list_at s rows = r # rest" by (cases "list_at s rows") auto
  let ?r0 = "dict_at s r"
  have ra: "rows_at s rows = ?r0 # map (dict_at s) rest"
    using lr by (simp add: rows_at_def)
  show ?thesis
  proof (cases "index_of (map lower (keys ?r0)) (lower (w_col wh))")
    case None
    with lr ra show ?thesis
      by (simp add: apply_where_st_def apply_where_def)
  next
    case (Some k)
    let ?f = "length (list_objs s)"
    let ?s1 = "s\<lparr>list_objs := list_objs s @ [[]]\<rparr>"
    have f: "?f < length (list_objs ?s1)" by simp
    have ne: "rows \<noteq> ?f" using assms by simp
    from where_loop_st_run[OF f ne, of fo "keys ?r0 ! k" "w_op wh" "w_val wh" 0]
    obtain res s' where
      run: "where_loop_st fo (keys ?r0 ! k) (w_op wh) (w_val wh) rows ?f 0 ?s1 = Some (res, s')"
      and reg: "registry s' = registry ?s1" and dic: "dict_objs s' = dict_objs ?s1"
      and len: "length (list_objs s') = length (list_objs ?s1)"
      and oth: "\<forall>a. a \<noteq> ?f \<longrightarrow> list_at s' a = list_at ?s1 a"
      and out: "(case where_loop fo (keys ?r0 ! k) (w_op wh) (w_val wh)
                       (map (dict_at ?s1) (drop 0 (list_at ?s1 rows))) of
          Inl e \<Rightarrow> res = Inl e
        | Inr out \<Rightarrow> res = Inr () \<and> rows_at s' ?f = rows_at ?s1 ?f @ out)"
      by blast
    have ext: "list_objs s' = list_objs s @ [list_at s' ?f]"
      by (rule extends_by_one[OF len oth]) simp
    have l1: "list_at ?s1 rows = list_at s rows"
      using assms by (simp add: list_at_def nth_append)
    have d1: "dict_at ?s1 = dict_at s"
      by (simp add: dict_at_def fun_eq_iff)
    have e1: "rows_at ?s1 ?f = []"
      by (simp add: rows_at_def list_at_def)
    have pure: "apply_where fo (rows_at s rows) wh =
        where_loop fo (keys ?r0 ! k) (w_op wh) (w_val wh) (rows_at s rows)"
      using ra Some by (simp add: apply_where_def)
    have st: "apply_where_st fo s rows wh =
        (case res of Inl e \<Rightarrow> Some (Inl e, s') | Inr u \<Rightarrow> Some (Inr ?f, s'))"
      using False lr Some run by (simp add: apply_where_st_def new_list_def split: sum.splits)
    from out have out': "(case where_loop fo (keys ?r0 ! k) (w_op wh) (w_val wh) (rows_at s rows) of
          Inl e \<Rightarrow> res = Inl e
        | Inr out \<Rightarrow> res = Inr () \<and> rows_at s' ?f = out)"
      unfolding l1 d1 e1 by (auto simp: rows_at_def split: sum.splits)
    show ?thesis
    proof (cases "where_loop fo (keys ?r0 ! k) (w_op wh) (w_val wh) (rows_at s rows)")
      case (Inl e)
      with out' have "res = Inl e" by simp
      with st Inl pure reg dic ext show ?thesis by simp
    next
      case (Inr outp)
      with out' have "res = Inr ()" "rows_at s' ?f = outp" by simp_all
      with st Inr pure reg dic ext show ?thesis by simp
    qed
  qed
qed

lemma well_formed_lookup:
  "well_formed s \<Longrightarrow> map_of (registry s) name = Some a \<Longrightarrow> a < length (list_objs s)"
  by (auto simp: well_formed_def list_all_iff dest!: map_of_SomeD)

lemma execute_parsed_st_run:
  assumes "well_formed s"
  shows "\<exists>s'. execute_parsed_st fo s parsed = Some (execute_parsed fo (engine_of s) parsed, s')
     \<and> registry s' = registry s \<and> dict_objs s' = dict_objs s
     \<and> (\<exists>fresh. list_objs s' = list_objs s @ fresh)"
proof (cases "map_of (registry s) (lower (q_from parsed))")
  case None
  then show ?thesis
    by (simp add: execute_parsed_st_def execute_parsed_select_result resolve_table_st_def
        resolve_table_def engine_of_def domIff)
next
  case (Some a)
  then have rt: "resolve_table_st s (q_from parsed) = Inr (lower (q_from parsed))"
      "resolve_table (engine_of s) (q_from parsed) = Inr (lower (q_from parsed))"
      "tables (engine_of s) (lower (q_from parsed)) = Some (rows_at s a)"
    by (simp_all add: resolve_table_st_def resolve_table_def engine_of_def domIff)
  from well_formed_lookup[OF assms Some] have a: "a < length (list_objs s)" .
  show ?thesis
  proof (cases "q_where parsed")
    case None
    with Some rt show ?thesis
      by (simp add: execute_parsed_st_def execute_parsed_select_result)
  next
    case (Some wh)
    from apply_where_st_run[OF a, of fo wh] obtain res s' where
      run: "apply_where_st fo s a wh = Some (res, s')"
      and reg: "registry s' = registry s" and dic: "dict_objs s' = dict_objs s"
      and ext: "\<exists>fresh. list_objs s' = list_objs s @ fresh"
      and out: "(case apply_where fo (rows_at s a) wh of
          Inl e \<Rightarrow> res = Inl e
        | Inr out \<Rightarrow> \<exists>b. res = Inr b \<and> rows_at s' b = out)"
      by blast
    show ?thesis
    proof (cases "apply_where fo (rows_at s a) wh")
      case (Inl e)
      with out have "res = Inl e" by simp
      with run Inl Some \<open>map_of (registry s) (lower (q_from parsed)) = Some a\<close> rt reg dic ext
      show ?thesis
        by (simp add: execute_parsed_st_def execute_parsed_select_result)
    next
      case (Inr outp)
      with out obtain b where "res = Inr b" "rows_at s' b = outp" by auto
      with run Inr Some \<open>map_of (registry s) (lower (q_from parsed)) = Some a\<close> rt reg dic ext
      show ?thesis
        by (simp add: execute_parsed_st_def execute_parsed_select_result)
    qed
  qed
qed

lemma execute_st_run:
  assumes "well_formed s"
  shows "\<exists>s'. execute_st fo s sql = Some (fst (execute fo (engine_of s) sql), s')
     \<and> registry s' = registry s \<and> dict_objs s' = dict_objs s
     \<and> (\<exists>fresh. list_objs s' = list_objs s @ fresh)"
proof (cases "parse fo sql")
  case (Inl e)
  then show ?thesis by (simp add: execute_st_def execute_def)
next
  case (Inr parsed)
  with execute_parsed_st_run[OF assms, of fo parsed] show ?thesis
    by (simp add: execute_st_def execute_def)
qed

lemma engine_of_extend:
  assumes "well_formed s" "registry s' = registry s" "dict_objs s' = dict_objs s"
    "list_objs s' = list_objs s @ fresh"
  shows "engine_of s' = engine_of s" "well_formed s'"
proof -
  have "map_option (rows_at s') (map_of (registry s) name) =
        map_option (rows_at s) (map_of (registry s) name)" for name
  proof (cases "map_of (registry s) name")
    case None
    then show ?thesis by simp
  next
    case (Some a)
    from well_formed_lookup[OF assms(1) Some] have "a < length (list_objs s)" .
    from rows_at_extend(1)[OF assms(4) assms(3) this] Some show ?thesis by simp
  qed
  then show "engine_of s' = engine_of s"
    using assms(2) by (simp add: engine_of_def)
  show "well_formed s'"
    using assms(1,2,4) by (auto simp: well_formed_def list_all_iff)
qed

section \<open>The claims\<close>

subsection \<open>The FROM keyword\<close>

text \<open>
  Claim C1. The claim is that any letter casing of the FROM keyword is accepted and the text is
  split at its first occurrence. The test for the keyword does ignore case, but the split is tried
  with \<^verbatim>\<open>" from "\<close> and with \<^verbatim>\<open>" FROM "\<close> only: for \<^verbatim>\<open>SELECT a From t\<close> the split
  gives one piece and unpacking it into two names raises Python's own \<^verbatim>\<open>ValueError\<close>, which is
  neither a query nor an \<^verbatim>\<open>SQLParseError\<close>.
\<close>

theorem mixed_case_from_raises_value_error:
  "parse fo ''SELECT a From t'' = Inl ValueError"
  by (simp add: parser_defs char_defs text_defs)

subsection \<open>The WHERE keyword\<close>

text \<open>
  Claim C2. The claim is that the predicate segment is all the text after the first WHERE
  keyword. The code splits with \<^verbatim>\<open>re.split\<close> and no \<^verbatim>\<open>maxsplit\<close>, and keeps the second
  piece: for \<^verbatim>\<open>SELECT * FROM t WHERE a = 1 WHERE b = 2\<close> the predicate segment is
  \<^verbatim>\<open>a = 1\<close> and the text from the second WHERE on is lost.
\<close>

theorem second_where_is_discarded:
  "split_table_where ''t WHERE a = 1 WHERE b = 2'' = Inr (''t'', Some ''a = 1'') \<and>
   parse fo ''SELECT * FROM t WHERE a = 1 WHERE b = 2'' =
     Inr \<lparr>q_select = SelCols [''*''], q_from = ''t'',
          q_where = Some \<lparr>w_col = ''a'', w_op = ''='', w_val = LNum (NInt 1)\<rparr>\<rparr>"
  by (simp add: parser_defs char_defs text_defs)

subsection \<open>Empty pieces of the column list\<close>

text \<open>
  Claim C3, as stated, would have \<^verbatim>\<open>SELECT a,,b FROM t\<close> rejected because of its empty
  piece. The parser accepts it and selects the columns \<open>a\<close> and \<open>b\<close>.
\<close>

theorem empty_piece_is_accepted:
  "parse decimal_floats ''SELECT a,,b FROM t'' =
     Inr \<lparr>q_select = SelCols [''a'', ''b''], q_from = ''t'', q_where = None\<rparr>"
  by (simp add: parser_defs char_defs text_defs)

text \<open>
  Claim C3, amended. For a select body that is neither \<^verbatim>\<open>*\<close> nor a COUNT form, the pieces
  that are blank after trimming are dropped before anything is checked. The body is rejected
  with \<open>EmptySelection\<close> when no piece is left, and with \<open>InvalidColumn\<close> only for a piece that
  is left, is not empty and fails the identifier pattern; otherwise the selection is the list of
  the pieces left, trimmed and lowercased.
\<close>

theorem empty_select_pieces_are_dropped:
  assumes "\<not> startswith (upper select_body) ''COUNT(''"
    and "select_body \<noteq> ''*''"
    and "kept = filter (\<lambda>p. strip p \<noteq> []) (split_char CHR '','' select_body)"
  shows "(\<forall>e. parse_select select_body = Inl e \<longrightarrow>
            (e = SQLParseError EmptySelection \<and> kept = []) \<or>
            (\<exists>p \<in> set kept. e = SQLParseError (InvalidColumn (lower (strip p))) \<and>
                lower (strip p) \<noteq> [] \<and> \<not> is_identifier (lower (strip p))))
       \<and> (\<forall>sel. parse_select select_body = Inr sel \<longrightarrow>
            sel = SelCols (map (\<lambda>p. lower (strip p)) kept) \<and> kept \<noteq> [] \<and>
            (\<forall>p \<in> set kept. is_identifier (lower (strip p))))"
proof -
  let ?cols = "map (\<lambda>p. lower (strip p)) kept"
  have cols: "select_columns select_body = ?cols"
    by (simp add: select_columns_def assms(3))
  have nonempty: "lower (strip p) \<noteq> []" if "p \<in> set kept" for p
    using that by (simp add: assms(3) lower_def)
  show ?thesis
  proof (cases "kept = []")
    case True
    with assms(1,2) cols show ?thesis by (simp add: parse_select_def)
  next
    case False
    show ?thesis
    proof (cases "find (\<lambda>c. \<not> is_identifier c) ?cols")
      case None
      then have "\<forall>p \<in> set kept. is_identifier (lower (strip p))"
        by (auto simp: find_None_iff)
      with None False assms(1,2) cols show ?thesis by (simp add: parse_select_def)
    next
      case (Some c)
      then have "c \<in> set ?cols" "\<not> is_identifier c"
        by (auto simp: find_Some_iff)
      then obtain p where p: "p \<in> set kept" "c = lower (strip p)" by auto
      with \<open>\<not> is_identifier c\<close> nonempty[OF p(1)]
      have "\<exists>p \<in> set kept. SQLParseError (InvalidColumn c) = SQLParseError (InvalidColumn (lower (strip p))) \<and>
                lower (strip p) \<noteq> [] \<and> \<not> is_identifier (lower (strip p))" by blast
      with Some False assms(1,2) cols show ?thesis by (simp add: parse_select_def)
    qed
  qed
qed

theorem empty_select_pieces_are_dropped_witness:
  "\<not> startswith (upper ''a,,b'') ''COUNT('' \<and> ''a,,b'' \<noteq> ''*'' \<and>
   split_char CHR '','' ''a,,b'' = [''a'', [], ''b''] \<and>
   filter (\<lambda>p. strip p \<noteq> []) (split_char CHR '','' ''a,,b'') = [''a'', ''b''] \<and>
   parse_select ''a,,b'' = Inr (SelCols [''a'', ''b'']) \<and>
   is_identifier (lower (strip ''a'')) \<and> is_identifier (lower (strip ''b''))"
  using empty_select_pieces_are_dropped[of "''a,,b''" "[''a'', ''b'']"]
  by (simp add: parser_defs char_defs text_defs)

subsection \<open>Counting rows\<close>



subsection \<open>Rows with a null predicate cell\<close>

text \<open>
  Claim C5. Whatever the operator and the operand of the predicate are, a row whose cell in the
  predicate column is null (the column being the first key of the first row that equals the
  requested name up to letter case) is not among the rows that \<open>apply_where\<close> returns.
\<close>

theorem null_predicate_cell_is_dropped:
  assumes "apply_where fo (r0 # rs) wh = Inr filtered"
    and "index_of (map lower (keys r0)) (lower (w_col wh)) = Some i"
    and "row_get r (keys r0 ! i) = SNull"
  shows "r \<notin> set filtered"
proof -
  let ?keep = "\<lambda>x. row_matches fo (keys r0 ! i) (w_op wh) (w_val wh) x = Inr True"
  from assms(1,2) have "where_loop fo (keys r0 ! i) (w_op wh) (w_val wh) (r0 # rs) = Inr filtered"
    by (simp add: apply_where_def)
  then have "filtered = filter ?keep (r0 # rs)"
    by (rule where_loop_filter)
  then have "\<forall>x \<in> set filtered. ?keep x"
    by (simp only: set_filter) blast
  moreover have "\<not> ?keep r"
    using assms(3) by (simp add: row_matches_null)
  ultimately show ?thesis by blast
qed

theorem null_predicate_cell_is_dropped_witness:
  "apply_where decimal_floats
       ([(''Age'', SInt 25)] # [[(''Age'', SNull)], [(''Age'', SInt 30)]])
       \<lparr>w_col = ''age'', w_op = ''!='', w_val = LNum (NInt 30)\<rparr> = Inr [[(''Age'', SInt 25)]]
   \<and> index_of (map lower (keys [(''Age'', SInt 25 :: (int \<times> nat) scalar)]))
        (lower (w_col \<lparr>w_col = ''age'', w_op = ''!='', w_val = LNum (NInt 30 :: (int \<times> nat) number)\<rparr>)) = Some 0
   \<and> row_get [(''Age'', SNull :: (int \<times> nat) scalar)]
        (keys [(''Age'', SInt 25 :: (int \<times> nat) scalar)] ! 0) = SNull
   \<and> [(''Age'', SNull)] \<notin> set [[(''Age'', SInt 25 :: (int \<times> nat) scalar)]]"
proof -
  have a: "apply_where decimal_floats
       ([(''Age'', SInt 25)] # [[(''Age'', SNull)], [(''Age'', SInt 30)]])
       \<lparr>w_col = ''age'', w_op = ''!='', w_val = LNum (NInt 30)\<rparr> = Inr [[(''Age'', SInt 25)]]"
    by (simp add: apply_where_def keys_def row_matches_def row_get_def coerce_cell_def to_float_def
        cmp_num_def compare_def decimal_floats_def cmp_int_def char_defs text_defs)
  have b: "index_of (map lower (keys [(''Age'', SInt 25 :: (int \<times> nat) scalar)]))
        (lower (w_col \<lparr>w_col = ''age'', w_op = ''!='', w_val = LNum (NInt 30 :: (int \<times> nat) number)\<rparr>)) = Some 0"
    by (simp add: keys_def char_defs text_defs)
  have c: "row_get [(''Age'', SNull :: (int \<times> nat) scalar)]
        (keys [(''Age'', SInt 25 :: (int \<times> nat) scalar)] ! 0) = SNull"
    by (simp add: keys_def row_get_def)
  show ?thesis
    by (intro conjI) (rule a, rule b, rule c, rule null_predicate_cell_is_dropped[OF a b c])
qed

subsection \<open>Operator priority\<close>

text \<open>
  Claim C6. The operator of a predicate segment is found by going through the list
  \<^verbatim>\<open>>=\<close>, \<^verbatim>\<open><=\<close>, \<^verbatim>\<open>!=\<close>, \<^verbatim>\<open>=\<close>, \<^verbatim>\<open>>\<close>, \<^verbatim>\<open><\<close> in this order. When the segment parses, its
  operator is the first candidate of the list that occurs in the segment, and the segment is
  split at the leftmost occurrence of that operator into the column and the operand. Whenever
  a candidate occurs in the segment and no candidate before it in the list does, that candidate
  is the operator found, the segment is split at its leftmost occurrence, and the outcome of
  the parse is fixed by the two sides: an error for a left side that is no identifier, else the
  error of the operand, else the predicate of that column, that operator and that operand. No
  operator is found exactly when no candidate occurs, and then a non-empty segment is rejected
  for its missing operator. In particular a query whose predicate segment is \<^verbatim>\<open>age >= 30\<close>
  parses to the operator \<^verbatim>\<open>>=\<close>, the column \<open>age\<close> and the number 30.
\<close>

theorem operator_is_first_candidate_present:
  "(parse_where fo (Some where_body) = Inr (Some wh) \<longrightarrow>
      (\<exists>before after left right.
          COMPARISON_OPS = before @ w_op wh # after \<and>
          (\<forall>c \<in> set before. \<not> contains where_body c) \<and>
          contains where_body (w_op wh) \<and>
          where_body = left @ w_op wh @ right \<and>
          (\<forall>l' r'. where_body = l' @ w_op wh @ r' \<longrightarrow> length left \<le> length l') \<and>
          w_col wh = lower (strip left) \<and>
          parse_value fo (strip right) = Inr (w_val wh)))
   \<and> (COMPARISON_OPS = earlier @ cand # later \<longrightarrow>
       (\<forall>c \<in> set earlier. \<not> contains where_body c) \<longrightarrow>
       contains where_body cand \<longrightarrow>
         find_op COMPARISON_OPS where_body = Some cand \<and>
         (\<exists>left right.
            split_once where_body cand = Some (left, right) \<and>
            where_body = left @ cand @ right \<and>
            (\<forall>l' r'. where_body = l' @ cand @ r' \<longrightarrow> length left \<le> length l') \<and>
            parse_where fo (Some where_body) =
              (if \<not> is_identifier (lower (strip left))
               then Inl (SQLParseError (InvalidWhereColumn (lower (strip left))))
               else (case parse_value fo (strip right) of
                       Inl e \<Rightarrow> Inl e
                     | Inr v \<Rightarrow> Inr (Some \<lparr>w_col = lower (strip left), w_op = cand, w_val = v\<rparr>)))))
   \<and> (find_op COMPARISON_OPS where_body = None \<longleftrightarrow>
        (\<forall>c \<in> set COMPARISON_OPS. \<not> contains where_body c))
   \<and> (where_body \<noteq> [] \<longrightarrow> (\<forall>c \<in> set COMPARISON_OPS. \<not> contains where_body c) \<longrightarrow>
         parse_where fo (Some where_body) = Inl (SQLParseError MissingOperator))
   \<and> (split_select_from sql = Inr (select_body, raw_rest) \<longrightarrow>
       split_table_where raw_rest = Inr (from_part, Some ''age >= 30'') \<longrightarrow>
       parse_select select_body = Inr sel \<longrightarrow>
         parse fo sql = Inr \<lparr>q_select = sel, q_from = lower from_part,
           q_where = Some \<lparr>w_col = ''age'', w_op = ''>='', w_val = LNum (NInt 30)\<rparr>\<rparr>)"
proof (intro conjI impI)
  assume pw: "parse_where fo (Some where_body) = Inr (Some wh)"
  then obtain op left right v where
    op: "find_op COMPARISON_OPS where_body = Some op"
    and sp: "split_once where_body op = Some (left, right)"
    and v: "parse_value fo (strip right) = Inr v"
    and wh: "wh = \<lparr>w_col = lower (strip left), w_op = op, w_val = v\<rparr>"
    by (auto simp: parse_where_def Let_def split: if_splits option.splits sum.splits)
  from find_op_Some[OF op] obtain before after where
    ba: "COMPARISON_OPS = before @ op # after" "contains where_body op"
        "\<forall>c \<in> set before. \<not> contains where_body c" by blast
  have app: "where_body = left @ op @ right"
    by (rule split_once_append[OF sp])
  have least: "\<forall>l' r'. where_body = l' @ op @ r' \<longrightarrow> length left \<le> length l'"
    using split_once_leftmost[OF sp] by blast
  from ba app least v wh
  show "\<exists>before after left right.
          COMPARISON_OPS = before @ w_op wh # after \<and>
          (\<forall>c \<in> set before. \<not> contains where_body c) \<and>
          contains where_body (w_op wh) \<and>
          where_body = left @ w_op wh @ right \<and>
          (\<forall>l' r'. where_body = l' @ w_op wh @ r' \<longrightarrow> length left \<le> length l') \<and>
          w_col wh = lower (strip left) \<and>
          parse_value fo (strip right) = Inr (w_val wh)"
    by (intro exI[of _ before] exI[of _ after] exI[of _ left] exI[of _ right]) simp
next
  assume ops: "COMPARISON_OPS = earlier @ cand # later"
    and none: "\<forall>c \<in> set earlier. \<not> contains where_body c"
    and here: "contains where_body cand"
  show "find_op COMPARISON_OPS where_body = Some cand"
    by (rule find_op_first[OF ops none here])
next
  assume ops: "COMPARISON_OPS = earlier @ cand # later"
    and none: "\<forall>c \<in> set earlier. \<not> contains where_body c"
    and here: "contains where_body cand"
  have fo: "find_op COMPARISON_OPS where_body = Some cand"
    by (rule find_op_first[OF ops none here])
  have "cand \<in> set (earlier @ cand # later)" by simp
  with ops have "cand \<in> set COMPARISON_OPS" by metis
  then have ne: "cand \<noteq> []" by (rule candidates_not_empty)
  from split_once_Some[OF here ne] obtain left right
    where sp: "split_once where_body cand = Some (left, right)" by blast
  from sp have wb: "where_body \<noteq> []" by auto
  have app: "where_body = left @ cand @ right"
    by (rule split_once_append[OF sp])
  have least: "\<forall>l' r'. where_body = l' @ cand @ r' \<longrightarrow> length left \<le> length l'"
    using split_once_leftmost[OF sp] by blast
  have pw: "parse_where fo (Some where_body) =
              (if \<not> is_identifier (lower (strip left))
               then Inl (SQLParseError (InvalidWhereColumn (lower (strip left))))
               else (case parse_value fo (strip right) of
                       Inl e \<Rightarrow> Inl e
                     | Inr v \<Rightarrow> Inr (Some \<lparr>w_col = lower (strip left), w_op = cand, w_val = v\<rparr>)))"
    using fo sp wb by (simp add: parse_where_def)
  from sp app least pw
  show "\<exists>left right.
            split_once where_body cand = Some (left, right) \<and>
            where_body = left @ cand @ right \<and>
            (\<forall>l' r'. where_body = l' @ cand @ r' \<longrightarrow> length left \<le> length l') \<and>
            parse_where fo (Some where_body) =
              (if \<not> is_identifier (lower (strip left))
               then Inl (SQLParseError (InvalidWhereColumn (lower (strip left))))
               else (case parse_value fo (strip right) of
                       Inl e \<Rightarrow> Inl e
                     | Inr v \<Rightarrow> Inr (Some \<lparr>w_col = lower (strip left), w_op = cand, w_val = v\<rparr>)))"
    by blast
next
  show "find_op COMPARISON_OPS where_body = None \<longleftrightarrow>
        (\<forall>c \<in> set COMPARISON_OPS. \<not> contains where_body c)"
    by (rule find_op_None_iff)
next
  assume "where_body \<noteq> []" and "\<forall>c \<in> set COMPARISON_OPS. \<not> contains where_body c"
  then show "parse_where fo (Some where_body) = Inl (SQLParseError MissingOperator)"
    by (simp add: parse_where_def find_op_None_iff[symmetric])
next
  assume "split_select_from sql = Inr (select_body, raw_rest)"
    and "split_table_where raw_rest = Inr (from_part, Some ''age >= 30'')"
    and "parse_select select_body = Inr sel"
  moreover have "parse_where fo (Some ''age >= 30'') =
      Inr (Some \<lparr>w_col = ''age'', w_op = ''>='', w_val = LNum (NInt 30)\<rparr>)"
    by (simp add: parser_defs char_defs text_defs)
  ultimately show "parse fo sql = Inr \<lparr>q_select = sel, q_from = lower from_part,
           q_where = Some \<lparr>w_col = ''age'', w_op = ''>='', w_val = LNum (NInt 30)\<rparr>\<rparr>"
    by (simp add: parse_def)
qed

text \<open>
  The segments \<^verbatim>\<open>age > 30\<close> and \<^verbatim>\<open>Name != bob\<close> take the fifth and the third candidate, the segment
  \<^verbatim>\<open>age 30\<close> holds none, and \<^verbatim>\<open>age >= 30\<close> takes the first one.
\<close>

theorem operator_is_first_candidate_present_witness:
  "COMPARISON_OPS = [''>='', ''<='', ''!='', ''=''] @ ''>'' # [''<'']
   \<and> \<not> contains ''age > 30'' ''>='' \<and> \<not> contains ''age > 30'' ''<=''
   \<and> \<not> contains ''age > 30'' ''!='' \<and> \<not> contains ''age > 30'' ''=''
   \<and> contains ''age > 30'' ''>''
   \<and> find_op COMPARISON_OPS ''age > 30'' = Some ''>''
   \<and> split_once ''age > 30'' ''>'' = Some (''age '', '' 30'')
   \<and> parse_where decimal_floats (Some ''age > 30'') =
        Inr (Some \<lparr>w_col = ''age'', w_op = ''>'', w_val = LNum (NInt 30)\<rparr>)
   \<and> COMPARISON_OPS = [''>='', ''<=''] @ ''!='' # [''='', ''>'', ''<'']
   \<and> \<not> contains ''Name != bob'' ''>='' \<and> \<not> contains ''Name != bob'' ''<=''
   \<and> contains ''Name != bob'' ''!=''
   \<and> parse_where decimal_floats (Some ''Name != bob'') =
        Inr (Some \<lparr>w_col = ''name'', w_op = ''!='', w_val = LStr ''bob''\<rparr>)
   \<and> find_op COMPARISON_OPS ''age 30'' = None
   \<and> parse_where decimal_floats (Some ''age 30'') = Inl (SQLParseError MissingOperator)
   \<and> parse_where decimal_floats (Some ''age >= 30'') =
        Inr (Some \<lparr>w_col = ''age'', w_op = ''>='', w_val = LNum (NInt 30)\<rparr>)
   \<and> (\<exists>before after left right.
          COMPARISON_OPS = before @ ''>='' # after \<and>
          ''age >= 30'' = left @ ''>='' @ right \<and>
          ''age'' = lower (strip left) \<and>
          parse_value decimal_floats (strip right) = Inr (LNum (NInt 30)))
   \<and> split_select_from ''select Name from People where age >= 30;'' =
        Inr (''Name'', ''People where age >= 30'')
   \<and> split_table_where ''People where age >= 30'' = Inr (''People'', Some ''age >= 30'')
   \<and> parse_select ''Name'' = Inr (SelCols [''name''])
   \<and> parse decimal_floats ''select Name from People where age >= 30;'' =
        Inr \<lparr>q_select = SelCols [''name''], q_from = ''people'',
             q_where = Some \<lparr>w_col = ''age'', w_op = ''>='', w_val = LNum (NInt 30)\<rparr>\<rparr>"
proof -
  let ?wh = "\<lparr>w_col = ''age'', w_op = ''>='', w_val = LNum (NInt 30)\<rparr> :: (int \<times> nat) where_clause"
  note inst = operator_is_first_candidate_present[where fo = decimal_floats
      and where_body = "''age >= 30''" and wh = ?wh
      and sql = "''select Name from People where age >= 30;''" and select_body = "''Name''"
      and raw_rest = "''People where age >= 30''" and from_part = "''People''"
      and sel = "SelCols [''name'']", THEN conjunct1]
  note last = operator_is_first_candidate_present[where fo = decimal_floats
      and sql = "''select Name from People where age >= 30;''" and select_body = "''Name''"
      and raw_rest = "''People where age >= 30''" and from_part = "''People''"
      and sel = "SelCols [''name'']", THEN conjunct2, THEN conjunct2, THEN conjunct2,
      THEN conjunct2]
  note gt = operator_is_first_candidate_present[where fo = decimal_floats
      and where_body = "''age > 30''" and earlier = "[''>='', ''<='', ''!='', ''='']"
      and cand = "''>''" and later = "[''<'']", THEN conjunct2, THEN conjunct1]
  note ne = operator_is_first_candidate_present[where fo = decimal_floats
      and where_body = "''Name != bob''" and earlier = "[''>='', ''<='']"
      and cand = "''!=''" and later = "[''='', ''>'', ''<'']", THEN conjunct2, THEN conjunct1]
  note none = operator_is_first_candidate_present[where fo = decimal_floats
      and where_body = "''age 30''", THEN conjunct2, THEN conjunct2, THEN conjunct2,
      THEN conjunct1]
  note iff3 = operator_is_first_candidate_present[where fo = decimal_floats
      and where_body = "''age 30''", THEN conjunct2, THEN conjunct2, THEN conjunct1]
  have o1: "COMPARISON_OPS = [''>='', ''<='', ''!='', ''=''] @ ''>'' # [''<'']"
    by (simp add: COMPARISON_OPS_def)
  have n1: "\<not> contains ''age > 30'' ''>=''" "\<not> contains ''age > 30'' ''<=''"
           "\<not> contains ''age > 30'' ''!=''" "\<not> contains ''age > 30'' ''=''"
    by simp_all
  have c1: "contains ''age > 30'' ''>''" by simp
  have s1: "split_once ''age > 30'' ''>'' = Some (''age '', '' 30'')" by simp
  have all1: "\<forall>c \<in> set [''>='', ''<='', ''!='', ''='']. \<not> contains ''age > 30'' c"
    using n1 by simp
  note g1 = mp[OF mp[OF mp[OF gt o1] all1] c1]
  from g1 have f1: "find_op COMPARISON_OPS ''age > 30'' = Some ''>''"
    by (rule conjunct1)
  from g1 obtain left1 right1 where
    sp1: "split_once ''age > 30'' ''>'' = Some (left1, right1)" and
    pw1: "parse_where decimal_floats (Some ''age > 30'') =
          (if \<not> is_identifier (lower (strip left1))
           then Inl (SQLParseError (InvalidWhereColumn (lower (strip left1))))
           else (case parse_value decimal_floats (strip right1) of
                   Inl e \<Rightarrow> Inl e
                 | Inr v \<Rightarrow> Inr (Some \<lparr>w_col = lower (strip left1), w_op = ''>'', w_val = v\<rparr>)))"
    by blast
  from sp1 have lr1: "left1 = ''age ''" "right1 = '' 30''" by simp_all
  from pw1
  have p1: "parse_where decimal_floats (Some ''age > 30'') =
        Inr (Some \<lparr>w_col = ''age'', w_op = ''>'', w_val = LNum (NInt 30)\<rparr>)"
    unfolding lr1 by (simp add: parser_defs char_defs text_defs)
  have o2: "COMPARISON_OPS = [''>='', ''<=''] @ ''!='' # [''='', ''>'', ''<'']"
    by (simp add: COMPARISON_OPS_def)
  have n2: "\<not> contains ''Name != bob'' ''>=''" "\<not> contains ''Name != bob'' ''<=''"
    by simp_all
  have c2: "contains ''Name != bob'' ''!=''" by simp
  have s2: "split_once ''Name != bob'' ''!='' = Some (''Name '', '' bob'')" by simp
  have all2: "\<forall>c \<in> set [''>='', ''<='']. \<not> contains ''Name != bob'' c"
    using n2 by simp
  note g2 = mp[OF mp[OF mp[OF ne o2] all2] c2]
  from g2 obtain left2 right2 where
    sp2: "split_once ''Name != bob'' ''!='' = Some (left2, right2)" and
    pw2: "parse_where decimal_floats (Some ''Name != bob'') =
          (if \<not> is_identifier (lower (strip left2))
           then Inl (SQLParseError (InvalidWhereColumn (lower (strip left2))))
           else (case parse_value decimal_floats (strip right2) of
                   Inl e \<Rightarrow> Inl e
                 | Inr v \<Rightarrow> Inr (Some \<lparr>w_col = lower (strip left2), w_op = ''!='', w_val = v\<rparr>)))"
    by blast
  from sp2 have lr2: "left2 = ''Name ''" "right2 = '' bob''" by simp_all
  from pw2
  have p2: "parse_where decimal_floats (Some ''Name != bob'') =
        Inr (Some \<lparr>w_col = ''name'', w_op = ''!='', w_val = LStr ''bob''\<rparr>)"
    unfolding lr2 by (simp add: parser_defs char_defs text_defs)
  have ne3: "''age 30'' \<noteq> []" by simp
  have all3: "\<forall>c \<in> set COMPARISON_OPS. \<not> contains ''age 30'' c"
    by (simp add: COMPARISON_OPS_def)
  have p3: "parse_where decimal_floats (Some ''age 30'') = Inl (SQLParseError MissingOperator)"
    by (rule mp[OF mp[OF none ne3] all3])
  from iff3 all3 have fn: "find_op COMPARISON_OPS ''age 30'' = None"
    by blast
  have a: "parse_where decimal_floats (Some ''age >= 30'') = Inr (Some ?wh)"
    by (simp add: parser_defs char_defs text_defs)
  have b: "split_select_from ''select Name from People where age >= 30;'' =
        Inr (''Name'', ''People where age >= 30'')"
    by (simp add: parser_defs char_defs text_defs)
  have c: "split_table_where ''People where age >= 30'' = Inr (''People'', Some ''age >= 30'')"
    by (simp add: parser_defs char_defs text_defs)
  have d: "parse_select ''Name'' = Inr (SelCols [''name''])"
    by (simp add: parser_defs char_defs text_defs)
  from mp[OF inst a] have e: "\<exists>before after left right.
          COMPARISON_OPS = before @ ''>='' # after \<and>
          ''age >= 30'' = left @ ''>='' @ right \<and>
          ''age'' = lower (strip left) \<and>
          parse_value decimal_floats (strip right) = Inr (LNum (NInt 30))"
    by simp blast
  from mp[OF mp[OF mp[OF last b] c] d] have f: "parse decimal_floats ''select Name from People where age >= 30;'' =
        Inr \<lparr>q_select = SelCols [''name''], q_from = ''people'',
             q_where = Some \<lparr>w_col = ''age'', w_op = ''>='', w_val = LNum (NInt 30)\<rparr>\<rparr>"
    by (simp add: char_defs text_defs)
  show ?thesis
    by (intro conjI) (rule o1, rule n1(1), rule n1(2), rule n1(3), rule n1(4), rule c1, rule f1,
        rule s1, rule p1, rule o2, rule n2(1), rule n2(2), rule c2, rule p2, rule fn, rule p3, rule a,
        rule e, rule b, rule c, rule d, rule f)
qed

subsection \<open>Selecting all columns, then the same columns by name\<close>

text \<open>
  Claim C7, as stated, fails for a table whose column names differ in letter case only: the
  names \<open>a\<close> and \<open>A\<close> both match the identifier pattern, and selecting \<open>a, A\<close> resolves both
  to the first of them.
\<close>

theorem round_trip_fails_on_case_clash:
  "tables case_clash_engine ''t'' = Some [[(''a'', SInt 1), (''A'', SInt 2)]]
   \<and> is_identifier ''a'' \<and> is_identifier ''A''
   \<and> fst (execute decimal_floats case_clash_engine ''SELECT * FROM t'') =
       Inr \<lparr>r_cols = [''a'', ''A''], r_rows = [[SInt 1, SInt 2]]\<rparr>
   \<and> fst (execute decimal_floats case_clash_engine ''SELECT a, A FROM t'') =
       Inr \<lparr>r_cols = [''a'', ''a''], r_rows = [[SInt 1, SInt 1]]\<rparr>"
proof -
  have p1: "parse decimal_floats ''SELECT * FROM t'' =
      Inr \<lparr>q_select = SelCols [''*''], q_from = ''t'', q_where = None\<rparr>"
    by (simp add: parser_defs char_defs text_defs)
  have p2: "parse decimal_floats ''SELECT a, A FROM t'' =
      Inr \<lparr>q_select = SelCols [''a'', ''a''], q_from = ''t'', q_where = None\<rparr>"
    by (simp add: parser_defs char_defs text_defs)
  have a: "tables case_clash_engine ''t'' = Some [[(''a'', SInt 1), (''A'', SInt 2)]]"
    by (simp add: case_clash_engine_def)
  have b: "is_identifier ''a''" "is_identifier ''A''"
    by (simp_all add: parser_defs char_defs)
  have c: "fst (execute decimal_floats case_clash_engine ''SELECT * FROM t'') =
       Inr \<lparr>r_cols = [''a'', ''A''], r_rows = [[SInt 1, SInt 2]]\<rparr>"
    unfolding execute_def p1 by (simp add: engine_defs char_defs text_defs)
  have d: "fst (execute decimal_floats case_clash_engine ''SELECT a, A FROM t'') =
       Inr \<lparr>r_cols = [''a'', ''a''], r_rows = [[SInt 1, SInt 1]]\<rparr>"
    unfolding execute_def p2 by (simp add: engine_defs char_defs text_defs)
  show ?thesis
    by (intro conjI) (rule a, rule b(1), rule b(2), rule c, rule d)
qed

text \<open>
  Claim C7, amended. For a registered table with at least one row whose column names all match
  the identifier pattern and are pairwise different when letter case is ignored: if the query
  for all columns gives the output columns \<open>C\<close> and the output rows \<open>R\<close>, then a query whose
  column list is \<open>C\<close> up to letter case gives the same columns and the same rows, in the same
  order.
\<close>

theorem star_then_column_list_round_trip:
  assumes "tables eng (lower t) = Some (r0 # rs)"
    and "\<forall>k \<in> set (keys r0). is_identifier k"
    and "distinct (map lower (keys r0))"
    and "parse fo sql_star = Inr \<lparr>q_select = SelCols [''*''], q_from = t, q_where = None\<rparr>"
    and "fst (execute fo eng sql_star) = Inr \<lparr>r_cols = C, r_rows = R\<rparr>"
    and "parse fo sql_cols = Inr \<lparr>q_select = SelCols cs, q_from = t, q_where = None\<rparr>"
    and "map lower cs = map lower C"
  shows "C = keys r0 \<and> fst (execute fo eng sql_cols) = Inr \<lparr>r_cols = C, r_rows = R\<rparr>"
proof -
  from assms(1,4) have "fst (execute fo eng sql_star) =
      Inr \<lparr>r_cols = keys r0, r_rows = project (keys r0) (r0 # rs)\<rparr>"
    by (simp add: execute_def execute_parsed_def resolve_table_def dom_def Let_def)
  with assms(5) have C: "C = keys r0" and R: "R = project (keys r0) (r0 # rs)"
    by auto
  from assms(7) C have "map lower cs = map lower (drop 0 (keys r0))" by simp
  from resolve_loop_all[OF assms(3) this]
  have "resolve_columns_case_insensitive (r0 # rs) cs = Inr (keys r0)"
    by (simp add: resolve_columns_case_insensitive_def)
  with assms(1,6) C R show ?thesis
    by (simp add: execute_def execute_parsed_def resolve_table_def dom_def Let_def)
qed

theorem star_then_column_list_round_trip_witness:
  "tables people_engine (lower ''people'') =
     Some ([(''id'', SInt 1), (''Name'', SStr ''ann''), (''age'', SInt 25)] #
           [[(''id'', SInt 2), (''Name'', SStr ''bob''), (''age'', SInt 40)],
            [(''id'', SInt 3), (''Name'', SStr ''cy''), (''age'', SNull)]])
   \<and> is_identifier ''id'' \<and> is_identifier ''Name'' \<and> is_identifier ''age''
   \<and> distinct (map lower (keys [(''id'', SInt 1 :: (int \<times> nat) scalar), (''Name'', SStr ''ann''), (''age'', SInt 25)]))
   \<and> parse decimal_floats ''SELECT * FROM people'' =
       Inr \<lparr>q_select = SelCols [''*''], q_from = ''people'', q_where = None\<rparr>
   \<and> fst (execute decimal_floats people_engine ''SELECT * FROM people'') =
       Inr \<lparr>r_cols = [''id'', ''Name'', ''age''],
            r_rows = [[SInt 1, SStr ''ann'', SInt 25], [SInt 2, SStr ''bob'', SInt 40],
                      [SInt 3, SStr ''cy'', SNull]]\<rparr>
   \<and> parse decimal_floats ''SELECT id, Name, age FROM people'' =
       Inr \<lparr>q_select = SelCols [''id'', ''name'', ''age''], q_from = ''people'', q_where = None\<rparr>
   \<and> map lower [''id'', ''name'', ''age''] = map lower [''id'', ''Name'', ''age'']
   \<and> fst (execute decimal_floats people_engine ''SELECT id, Name, age FROM people'') =
       Inr \<lparr>r_cols = [''id'', ''Name'', ''age''],
            r_rows = [[SInt 1, SStr ''ann'', SInt 25], [SInt 2, SStr ''bob'', SInt 40],
                      [SInt 3, SStr ''cy'', SNull]]\<rparr>"
proof -
  let ?r0 = "[(''id'', SInt 1), (''Name'', SStr ''ann''), (''age'', SInt 25)] :: (int \<times> nat) row"
  have a: "tables people_engine (lower ''people'') =
     Some (?r0 # [[(''id'', SInt 2), (''Name'', SStr ''bob''), (''age'', SInt 40)],
            [(''id'', SInt 3), (''Name'', SStr ''cy''), (''age'', SNull)]])"
    by (simp add: people_engine_def people_table_def char_defs text_defs)
  have b1: "is_identifier ''id''" and b2: "is_identifier ''Name''" and b3: "is_identifier ''age''"
    by (simp_all add: parser_defs char_defs)
  then have b: "\<forall>k \<in> set (keys ?r0). is_identifier k"
    by (simp add: keys_def)
  have c: "distinct (map lower (keys ?r0))"
    by (simp add: keys_def char_defs text_defs)
  have d: "parse decimal_floats ''SELECT * FROM people'' =
       Inr \<lparr>q_select = SelCols [''*''], q_from = ''people'', q_where = None\<rparr>"
    by (simp add: parser_defs char_defs text_defs)
  have e: "fst (execute decimal_floats people_engine ''SELECT * FROM people'') =
       Inr \<lparr>r_cols = [''id'', ''Name'', ''age''],
            r_rows = [[SInt 1, SStr ''ann'', SInt 25], [SInt 2, SStr ''bob'', SInt 40],
                      [SInt 3, SStr ''cy'', SNull]]\<rparr>"
    unfolding execute_def d by (simp add: engine_defs char_defs text_defs)
  have f: "parse decimal_floats ''SELECT id, Name, age FROM people'' =
       Inr \<lparr>q_select = SelCols [''id'', ''name'', ''age''], q_from = ''people'', q_where = None\<rparr>"
    by (simp add: parser_defs char_defs text_defs)
  have g: "map lower [''id'', ''name'', ''age''] = map lower [''id'', ''Name'', ''age'']"
    by (simp add: char_defs text_defs)
  from star_then_column_list_round_trip[OF a b c d e f g]
  have h: "fst (execute decimal_floats people_engine ''SELECT id, Name, age FROM people'') =
       Inr \<lparr>r_cols = [''id'', ''Name'', ''age''],
            r_rows = [[SInt 1, SStr ''ann'', SInt 25], [SInt 2, SStr ''bob'', SInt 40],
                      [SInt 3, SStr ''cy'', SNull]]\<rparr>"
    by (rule conjunct2)
  show ?thesis
    by (intro conjI) (rule a, rule b1, rule b2, rule b3, rule c, rule d, rule e, rule f, rule g, rule h)
qed

subsection \<open>The registry is only read\<close>

text \<open>
  Claim C8. \<^verbatim>\<open>execute\<close> does not change the registry. On every store whose table names refer to
  existing list objects, and for every query text, the call returns; what it returns or raises
  is the outcome of the executor on the tables of the store; the registry maps the same names to
  the same list objects after the call, every row dictionary is as it was, and every list object
  that existed before the call is as it was, the call having only added list objects of its own.
  So every table holds the same rows, with the same values and in the same order, and running
  the same query again on the store that the first run left gives the same outcome.
\<close>

theorem execute_leaves_the_registry_unchanged:
  assumes "well_formed s"
  shows "\<exists>res s'. execute_st fo s sql = Some (res, s')
     \<and> res = fst (execute fo (engine_of s) sql)
     \<and> registry s' = registry s
     \<and> dict_objs s' = dict_objs s
     \<and> (\<exists>fresh. list_objs s' = list_objs s @ fresh)
     \<and> (\<forall>name a. map_of (registry s) name = Some a \<longrightarrow>
           map_of (registry s') name = Some a \<and> list_at s' a = list_at s a \<and>
           rows_at s' a = rows_at s a)
     \<and> engine_of s' = engine_of s
     \<and> (\<exists>s''. execute_st fo s' sql = Some (res, s''))"
proof -
  from execute_st_run[OF assms, of fo sql] obtain s' fresh where
    run: "execute_st fo s sql = Some (fst (execute fo (engine_of s) sql), s')"
    and reg: "registry s' = registry s" and dic: "dict_objs s' = dict_objs s"
    and ext: "list_objs s' = list_objs s @ fresh"
    by blast
  note eng = engine_of_extend[OF assms reg dic ext]
  have tabs: "\<forall>name a. map_of (registry s) name = Some a \<longrightarrow>
           map_of (registry s') name = Some a \<and> list_at s' a = list_at s a \<and>
           rows_at s' a = rows_at s a"
    using rows_at_extend[OF ext dic] well_formed_lookup[OF assms] reg by auto
  from execute_st_run[OF eng(2), of fo sql] eng(1)
  have again: "\<exists>s''. execute_st fo s' sql = Some (fst (execute fo (engine_of s) sql), s'')"
    by auto
  from run reg dic ext tabs eng(1) again show ?thesis by blast
qed

text \<open>
  On the store of the example table the query \<^verbatim>\<open>SELECT name FROM people WHERE age > 30\<close> adds one
  list object, which refers to the second row, and changes nothing else.
\<close>

theorem execute_leaves_the_registry_unchanged_witness:
  "well_formed people_store
   \<and> execute_st decimal_floats people_store ''SELECT name FROM people WHERE age > 30'' =
       Some (Inr \<lparr>r_cols = [''Name''], r_rows = [[SStr ''bob'']]\<rparr>,
             \<lparr>registry = [(''people'', 0)], list_objs = [[0, 1, 2], [1]],
              dict_objs = people_table\<rparr>)
   \<and> (\<exists>res s'.
         execute_st decimal_floats people_store ''SELECT name FROM people WHERE age > 30'' =
           Some (res, s')
       \<and> res = Inr \<lparr>r_cols = [''Name''], r_rows = [[SStr ''bob'']]\<rparr>
       \<and> registry s' = [(''people'', 0)]
       \<and> dict_objs s' = people_table
       \<and> (\<exists>fresh. list_objs s' = [[0, 1, 2]] @ fresh)
       \<and> list_at s' 0 = [0, 1, 2]
       \<and> rows_at s' 0 = people_table
       \<and> engine_of s' = engine_of people_store
       \<and> (\<exists>s''. execute_st decimal_floats s' ''SELECT name FROM people WHERE age > 30'' =
                   Some (res, s'')))"
proof -
  let ?sql = "''SELECT name FROM people WHERE age > 30''"
  let ?out = "Inr \<lparr>r_cols = [''Name''], r_rows = [[SStr ''bob'']]\<rparr> :: error + (int \<times> nat) result"
  have wf: "well_formed people_store"
    by (simp add: well_formed_def people_store_def)
  have p: "parse decimal_floats ?sql =
      Inr \<lparr>q_select = SelCols [''name''], q_from = ''people'',
           q_where = Some \<lparr>w_col = ''age'', w_op = ''>'', w_val = LNum (NInt 30)\<rparr>\<rparr>"
    by (simp add: parser_defs char_defs text_defs)
  have direct: "execute_st decimal_floats people_store ?sql =
       Some (?out,
             \<lparr>registry = [(''people'', 0)], list_objs = [[0, 1, 2], [1]],
              dict_objs = people_table\<rparr>)"
    unfolding execute_st_def p
    by (simp add: store_defs engine_defs char_defs text_defs where_loop_st.simps)
  have pure: "fst (execute decimal_floats (engine_of people_store) ?sql) = ?out"
    unfolding execute_def p
    by (simp add: store_defs engine_defs char_defs text_defs domIff)
  have reg: "registry people_store = [(''people'', 0)]"
    and dic: "dict_objs people_store = people_table"
    and lis: "list_objs people_store = [[0, 1, 2]]"
    and l0: "list_at people_store 0 = [0, 1, 2]"
    and r0: "rows_at people_store 0 = people_table"
    by (simp_all add: people_store_def rows_at_def list_at_def dict_at_def people_table_def)
  have look: "map_of (registry people_store) ''people'' = Some 0"
    by (simp add: people_store_def)
  from execute_leaves_the_registry_unchanged[OF wf, of decimal_floats ?sql]
  obtain res s' where
    run: "execute_st decimal_floats people_store ?sql = Some (res, s')"
    and res: "res = fst (execute decimal_floats (engine_of people_store) ?sql)"
    and reg': "registry s' = registry people_store"
    and dic': "dict_objs s' = dict_objs people_store"
    and ext: "\<exists>fresh. list_objs s' = list_objs people_store @ fresh"
    and tabs: "\<forall>name a. map_of (registry people_store) name = Some a \<longrightarrow>
           map_of (registry s') name = Some a \<and> list_at s' a = list_at people_store a \<and>
           rows_at s' a = rows_at people_store a"
    and eng: "engine_of s' = engine_of people_store"
    and again: "\<exists>s''. execute_st decimal_floats s' ?sql = Some (res, s'')"
    by blast
  from tabs look have t0: "list_at s' 0 = list_at people_store 0"
      "rows_at s' 0 = rows_at people_store 0" by blast+
  have second: "\<exists>res s'.
         execute_st decimal_floats people_store ?sql = Some (res, s')
       \<and> res = ?out
       \<and> registry s' = [(''people'', 0)]
       \<and> dict_objs s' = people_table
       \<and> (\<exists>fresh. list_objs s' = [[0, 1, 2]] @ fresh)
       \<and> list_at s' 0 = [0, 1, 2]
       \<and> rows_at s' 0 = people_table
       \<and> engine_of s' = engine_of people_store
       \<and> (\<exists>s''. execute_st decimal_floats s' ?sql = Some (res, s''))"
    using run res reg' dic' ext t0 eng again unfolding pure reg dic lis l0 r0
    by blast
  show ?thesis
    by (intro conjI) (rule wf, rule direct, rule second)
qed

subsection \<open>Output names of a column list\<close>

text \<open>
  Claim C9. For a query with a column list, on a table that has at least one row left after the
  predicate, each output column name is the first key of the first row left that equals the
  requested name when letter case is ignored: it is the stored name, not the requested one.
  Requesting \<open>name\<close> from a table whose column is \<open>Name\<close> gives the output column \<open>Name\<close>.
\<close>

theorem column_list_outputs_stored_names:
  assumes "parse fo sql = Inr q"
    and "q_select q = SelCols cs"
    and "cs \<noteq> [''*'']"
    and "tables eng (lower (q_from q)) = Some table_rows"
    and "(case q_where q of None \<Rightarrow> Inr table_rows
          | Some wh \<Rightarrow> apply_where fo table_rows wh) = Inr (r0 # rs)"
    and "fst (execute fo eng sql) = Inr res"
  shows "list_all2 (\<lambda>rc c. find (\<lambda>k. lower k = lower rc) (keys r0) = Some c) cs (r_cols res)
       \<and> r_rows res = project (r_cols res) (r0 # rs)"
proof -
  from assms have ex: "(case resolve_columns_case_insensitive (r0 # rs) cs of
                          Inl e \<Rightarrow> Inl e
                        | Inr resolved_cols \<Rightarrow>
                            Inr \<lparr>r_cols = resolved_cols, r_rows = project resolved_cols (r0 # rs)\<rparr>) = Inr res"
    by (simp add: execute_def execute_parsed_def resolve_table_def dom_def)
  then obtain resolved where
    r: "resolve_loop (keys r0) [] cs = Inr resolved"
    and res: "res = \<lparr>r_cols = resolved, r_rows = project resolved (r0 # rs)\<rparr>"
    by (auto simp: resolve_columns_case_insensitive_def split: sum.splits)
  from parsed_cols_have_no_star[OF assms(1,2,3)] have "''*'' \<notin> set cs" .
  from resolve_loop_names[OF this r]
  have "list_all2 (\<lambda>rc c. find (\<lambda>k. lower k = lower rc) (keys r0) = Some c) cs resolved" by simp
  with res show ?thesis by simp
qed

theorem column_list_outputs_stored_names_witness:
  "parse decimal_floats ''SELECT name FROM people'' =
     Inr \<lparr>q_select = SelCols [''name''], q_from = ''people'', q_where = None\<rparr>
   \<and> [''name''] \<noteq> [''*'']
   \<and> tables people_engine (lower ''people'') = Some people_table
   \<and> keys (hd people_table) = [''id'', ''Name'', ''age'']
   \<and> fst (execute decimal_floats people_engine ''SELECT name FROM people'') =
       Inr \<lparr>r_cols = [''Name''], r_rows = [[SStr ''ann''], [SStr ''bob''], [SStr ''cy'']]\<rparr>
   \<and> list_all2 (\<lambda>rc c. find (\<lambda>k. lower k = lower rc) [''id'', ''Name'', ''age''] = Some c)
        [''name''] [''Name'']"
proof -
  let ?q = "\<lparr>q_select = SelCols [''name''], q_from = ''people'', q_where = None\<rparr> :: (int \<times> nat) query"
  let ?r0 = "[(''id'', SInt 1), (''Name'', SStr ''ann''), (''age'', SInt 25)] :: (int \<times> nat) row"
  let ?rs = "[[(''id'', SInt 2), (''Name'', SStr ''bob''), (''age'', SInt 40)],
              [(''id'', SInt 3), (''Name'', SStr ''cy''), (''age'', SNull)]] :: (int \<times> nat) row list"
  let ?res = "\<lparr>r_cols = [''Name''], r_rows = [[SStr ''ann''], [SStr ''bob''], [SStr ''cy'']]\<rparr> :: (int \<times> nat) result"
  have a: "parse decimal_floats ''SELECT name FROM people'' = Inr ?q"
    by (simp add: parser_defs char_defs text_defs)
  have b: "q_select ?q = SelCols [''name'']" by simp
  have c: "[''name''] \<noteq> [''*'']" by simp
  have d0: "tables people_engine (lower ''people'') = Some people_table"
    by (simp add: people_engine_def char_defs text_defs)
  then have d: "tables people_engine (lower (q_from ?q)) = Some people_table" by simp
  have e: "(case q_where ?q of None \<Rightarrow> Inr people_table
            | Some wh \<Rightarrow> apply_where decimal_floats people_table wh) = Inr (?r0 # ?rs)"
    by (simp add: people_table_def)
  have f: "fst (execute decimal_floats people_engine ''SELECT name FROM people'') = Inr ?res"
    unfolding execute_def a by (simp add: engine_defs char_defs text_defs)
  have k: "keys (hd people_table) = [''id'', ''Name'', ''age'']"
    by (simp add: people_table_def keys_def)
  from column_list_outputs_stored_names[OF a b c d e f]
  have g: "list_all2 (\<lambda>rc c. find (\<lambda>k. lower k = lower rc) [''id'', ''Name'', ''age''] = Some c)
        [''name''] [''Name'']"
    by (simp add: keys_def)
  show ?thesis
    by (intro conjI) (rule a, rule c, rule d0, rule k, rule f, rule g)
qed

subsection \<open>An operand that is one quote character\<close>

text \<open>
  Claim C10. When the operand of the predicate is, after trimming, one single-quote character
  (and the query passes the checks made before the operand is read), the quote counts both as
  the opening and as the closing quote: the parse succeeds and the operand is the empty text.
\<close>

theorem lone_quote_operand_is_empty_text:
  assumes "split_select_from sql = Inr (select_body, raw_rest)"
    and "split_table_where raw_rest = Inr (from_part, Some where_body)"
    and "parse_select select_body = Inr sel"
    and "find_op COMPARISON_OPS where_body = Some op"
    and "split_once where_body op = Some (left, right)"
    and "is_identifier (lower (strip left))"
    and "strip right = [CHR 0x27]"
  shows "parse_value fo (strip right) = Inr (LStr []) \<and>
         parse fo sql = Inr \<lparr>q_select = sel, q_from = lower from_part,
           q_where = Some \<lparr>w_col = lower (strip left), w_op = op, w_val = LStr []\<rparr>\<rparr>"
proof -
  have v: "parse_value fo (strip right) = Inr (LStr [])"
    by (simp add: assms(7) parse_value_def endswith_def)
  from assms(5) have "where_body \<noteq> []" by auto
  with assms(4,5,6) v
  have "parse_where fo (Some where_body) =
          Inr (Some \<lparr>w_col = lower (strip left), w_op = op, w_val = LStr []\<rparr>)"
    by (simp add: parse_where_def)
  with assms(1,2,3) v show ?thesis by (simp add: parse_def)
qed

theorem lone_quote_operand_is_empty_text_witness:
  "split_select_from (''SELECT * FROM t WHERE a = '' @ [CHR 0x27]) = Inr (''*'', ''t WHERE a = '' @ [CHR 0x27])
   \<and> split_table_where (''t WHERE a = '' @ [CHR 0x27]) = Inr (''t'', Some (''a = '' @ [CHR 0x27]))
   \<and> parse_select ''*'' = Inr (SelCols [''*''])
   \<and> find_op COMPARISON_OPS (''a = '' @ [CHR 0x27]) = Some ''=''
   \<and> split_once (''a = '' @ [CHR 0x27]) ''='' = Some (''a '', '' '' @ [CHR 0x27])
   \<and> is_identifier (lower (strip ''a ''))
   \<and> strip ('' '' @ [CHR 0x27]) = [CHR 0x27]
   \<and> parse decimal_floats (''SELECT * FROM t WHERE a = '' @ [CHR 0x27]) =
        Inr \<lparr>q_select = SelCols [''*''], q_from = lower ''t'',
             q_where = Some \<lparr>w_col = lower (strip ''a ''), w_op = ''='', w_val = LStr []\<rparr>\<rparr>"
proof -
  have a: "split_select_from (''SELECT * FROM t WHERE a = '' @ [CHR 0x27]) = Inr (''*'', ''t WHERE a = '' @ [CHR 0x27])"
    by (simp add: parser_defs char_defs text_defs)
  have b: "split_table_where (''t WHERE a = '' @ [CHR 0x27]) = Inr (''t'', Some (''a = '' @ [CHR 0x27]))"
    by (simp add: parser_defs char_defs text_defs)
  have c: "parse_select ''*'' = Inr (SelCols [''*''])"
    by (simp add: parser_defs char_defs text_defs)
  have d: "find_op COMPARISON_OPS (''a = '' @ [CHR 0x27]) = Some ''=''"
    by (simp add: parser_defs)
  have e: "split_once (''a = '' @ [CHR 0x27]) ''='' = Some (''a '', '' '' @ [CHR 0x27])"
    by simp
  have f: "is_identifier (lower (strip ''a ''))"
    by (simp add: parser_defs char_defs text_defs)
  have g: "strip ('' '' @ [CHR 0x27]) = [CHR 0x27]"
    by (simp add: char_defs text_defs)
  from lone_quote_operand_is_empty_text[OF a b c d e f g, of decimal_floats]
  have h: "parse decimal_floats (''SELECT * FROM t WHERE a = '' @ [CHR 0x27]) =
        Inr \<lparr>q_select = SelCols [''*''], q_from = lower ''t'',
             q_where = Some \<lparr>w_col = lower (strip ''a ''), w_op = ''='', w_val = LStr []\<rparr>\<rparr>"
    by (rule conjunct2)
  show ?thesis
    by (intro conjI) (rule a, rule b, rule c, rule d, rule e, rule f, rule g, rule h)
qed

end
